theory Spec2Isabelle
  imports Complex_Main "HOL-Library.Sublist" "HOL-Library.AList" "HOL-Library.Char_ord"
    "HOL-Library.List_Lexorder"
begin

section \<open>Python strings\<close>

text \<open>
  Strings are lists of 8-bit characters. The string methods below are the ASCII part of
  Python's \<^verbatim>\<open>str\<close> methods: characters above 127 are left alone by \<open>py_lower\<close> and
  \<open>py_upper\<close> and are neither whitespace nor word characters.
\<close>

datatype py_error = ZeroDivisionError | KeyError | IndexError | ValueError | AssertionError
  | RuntimeError

text \<open>\<^verbatim>\<open>str.isspace\<close> on one ASCII character: TAB, LF, VT, FF, CR, FS, GS, RS, US, space.\<close>

definition py_isspace :: "char \<Rightarrow> bool" where
  "py_isspace c = (let n = (of_char c :: nat) in (9 \<le> n \<and> n \<le> 13) \<or> (28 \<le> n \<and> n \<le> 32))"

definition is_ascii_upper :: "char \<Rightarrow> bool" where
  "is_ascii_upper c = (let n = (of_char c :: nat) in 65 \<le> n \<and> n \<le> 90)"

definition is_ascii_lower :: "char \<Rightarrow> bool" where
  "is_ascii_lower c = (let n = (of_char c :: nat) in 97 \<le> n \<and> n \<le> 122)"

definition is_ascii_digit :: "char \<Rightarrow> bool" where
  "is_ascii_digit c = (let n = (of_char c :: nat) in 48 \<le> n \<and> n \<le> 57)"

definition py_lower_char :: "char \<Rightarrow> char" where
  "py_lower_char c = (if is_ascii_upper c then char_of ((of_char c :: nat) + 32) else c)"

definition py_upper_char :: "char \<Rightarrow> char" where
  "py_upper_char c = (if is_ascii_lower c then char_of ((of_char c :: nat) - 32) else c)"

definition py_lower :: "string \<Rightarrow> string" where
  "py_lower s = map py_lower_char s"

definition py_upper :: "string \<Rightarrow> string" where
  "py_upper s = map py_upper_char s"

definition py_strip :: "string \<Rightarrow> string" where
  "py_strip s = rev (dropWhile py_isspace (rev (dropWhile py_isspace s)))"

text \<open>\<^verbatim>\<open>str.split()\<close> with no argument: the maximal runs of non-whitespace characters.\<close>

fun split_ws :: "string \<Rightarrow> string \<Rightarrow> string list" where
  "split_ws cur [] = (if cur = [] then [] else [cur])"
| "split_ws cur (c # cs) =
     (if py_isspace c then (if cur = [] then split_ws [] cs else cur # split_ws [] cs)
      else split_ws (cur @ [c]) cs)"

definition py_split :: "string \<Rightarrow> string list" where
  "py_split s = split_ws [] s"

section \<open>News deduplication\<close>

text \<open>
  \<^verbatim>\<open>StockDataProcessor._deduplicate_news\<close> and \<^verbatim>\<open>NewsWebScraper._deduplicate_news\<close> are the
  same text. An article is a dictionary; \<open>title\<close> is \<open>None\<close> when the key is missing, which
  \<^verbatim>\<open>article.get("title", "")\<close> reads as the empty string.
\<close>

record article =
  title :: "string option"
  link :: "string option"
  published :: "string option"
  published_date :: "string option"
  publisher :: "string option"
  summary :: "string option"
  news_source :: "string option"

definition normalized_title :: "article \<Rightarrow> string" where
  "normalized_title a = py_strip (py_lower (case title a of None \<Rightarrow> [] | Some s \<Rightarrow> s))"

text \<open>
  \<^verbatim>\<open>len(title_words & seen_words) / max(len(title_words), len(seen_words))\<close>; the division
  raises when both word sets are empty.
\<close>

definition word_overlap :: "string \<Rightarrow> string \<Rightarrow> py_error + rat" where
  "word_overlap t seen_title =
     (let title_words = set (py_split t);
          seen_words = set (py_split seen_title);
          m = max (card title_words) (card seen_words)
      in if m = 0 then Inl ZeroDivisionError
         else Inr (of_nat (card (title_words \<inter> seen_words)) / of_nat m))"

text \<open>
  The inner loop over \<^verbatim>\<open>seen_titles\<close>, with its \<^verbatim>\<open>break\<close>. \<^verbatim>\<open>seen_titles\<close> is a Python set;
  it is kept here as a list without repetitions.
\<close>

fun is_duplicate :: "string \<Rightarrow> string list \<Rightarrow> py_error + bool" where
  "is_duplicate t [] = Inr False"
| "is_duplicate t (seen_title # rest) =
     (case word_overlap t seen_title of
        Inl e \<Rightarrow> Inl e
      | Inr r \<Rightarrow> if r > 7 / 10 then Inr True else is_duplicate t rest)"

fun dedup_loop :: "article list \<Rightarrow> string list \<Rightarrow> article list \<Rightarrow> py_error + article list" where
  "dedup_loop unique_news seen_titles [] = Inr unique_news"
| "dedup_loop unique_news seen_titles (a # rest) =
     (let t = normalized_title a in
      if t = [] then dedup_loop unique_news seen_titles rest
      else case is_duplicate t seen_titles of
             Inl e \<Rightarrow> Inl e
           | Inr True \<Rightarrow> dedup_loop unique_news seen_titles rest
           | Inr False \<Rightarrow> dedup_loop (unique_news @ [a]) (List.insert t seen_titles) rest)"

definition deduplicate_news :: "article list \<Rightarrow> py_error + article list" where
  "deduplicate_news news_list = dedup_loop [] [] news_list"

text \<open>The overlap test of the claim, as a predicate on two normalized titles.\<close>

definition similar_titles :: "string \<Rightarrow> string \<Rightarrow> bool" where
  "similar_titles t s =
     ((of_nat (card (set (py_split t) \<inter> set (py_split s))) :: rat)
        / of_nat (max (card (set (py_split t))) (card (set (py_split s)))) > 7 / 10)"


text \<open>
  The articles kept from a list, given those already accepted: a reading of the two nested
  loops as one recursion, used to reason about \<open>dedup_loop\<close>.
\<close>

fun kept :: "article list \<Rightarrow> article list \<Rightarrow> article list" where
  "kept u [] = u"
| "kept u (a # rest) =
     (if normalized_title a = [] \<or>
         (\<exists>b\<in>set u. similar_titles (normalized_title a) (normalized_title b))
      then kept u rest else kept (u @ [a]) rest)"

section \<open>Context selection under a length budget\<close>

text \<open>
  A context chunk is a dictionary read with \<^verbatim>\<open>.get\<close> and defaults: \<open>None\<close> is a missing key.
  \<open>chunk_type\<close> is \<^verbatim>\<open>chunk.get("metadata", {}).get("type")\<close>. Scores and the 80 percent
  threshold are exact rationals here where the source computes in binary floating point.
\<close>

record chunk =
  chunk_text :: "string option"
  chunk_score :: "rat option"
  chunk_type :: "string option"
  chunk_source :: "string option"

definition text_of :: "chunk \<Rightarrow> string" where
  "text_of c = (case chunk_text c of None \<Rightarrow> [] | Some s \<Rightarrow> s)"

definition score_of :: "chunk \<Rightarrow> rat" where
  "score_of c = (case chunk_score c of None \<Rightarrow> 0 | Some s \<Rightarrow> s)"

definition type_of :: "chunk \<Rightarrow> string" where
  "type_of c = (case chunk_type c of None \<Rightarrow> ''unknown'' | Some s \<Rightarrow> s)"

text \<open>\<^verbatim>\<open>sorted(context_chunks, key=..., reverse=True)\<close>: descending and stable.\<close>

definition sorted_chunks :: "chunk list \<Rightarrow> chunk list" where
  "sorted_chunks context_chunks = sort_key (\<lambda>c. - score_of c) context_chunks"

text \<open>
  The loop of \<^verbatim>\<open>_select_best_context\<close> with its state \<open>selected\<close>, \<open>total_length\<close>,
  \<open>seen_types\<close>; \<^verbatim>\<open>continue\<close> and \<^verbatim>\<open>break\<close> are the branches that go on without, and stop
  after, accepting.
\<close>

fun select_loop :: "int \<Rightarrow> chunk list \<Rightarrow> nat \<Rightarrow> string set \<Rightarrow> chunk list \<Rightarrow> chunk list" where
  "select_loop max_length selected total_length seen_types [] = selected"
| "select_loop max_length selected total_length seen_types (c # rest) =
     (let chunk_length = length (text_of c);
          chunk_type = type_of c
      in if int (total_length + chunk_length) > max_length
         then select_loop max_length selected total_length seen_types rest
         else let type_penalty = (if chunk_type \<in> seen_types then 1 / 10 else 0);
                  adjusted_score = score_of c - type_penalty
              in if adjusted_score > 6 / 10
                 then let selected' = selected @ [c];
                          total_length' = total_length + chunk_length;
                          seen_types' = insert chunk_type seen_types
                      in if length selected' \<ge> 8
                            \<or> (of_nat total_length' :: rat) > of_int max_length * (8 / 10)
                         then selected'
                         else select_loop max_length selected' total_length' seen_types' rest
                 else select_loop max_length selected total_length seen_types rest)"

definition select_best_context :: "chunk list \<Rightarrow> string \<Rightarrow> int \<Rightarrow> chunk list" where
  "select_best_context context_chunks query max_length =
     (if context_chunks = [] then []
      else select_loop max_length [] 0 {} (sorted_chunks context_chunks))"

definition total_text_length :: "chunk list \<Rightarrow> nat" where
  "total_text_length cs = sum_list (map (\<lambda>c. length (text_of c)) cs)"

text \<open>What the selector guarantees for a result \<open>r\<close> under the budget \<open>m\<close>.\<close>

definition select_ok :: "int \<Rightarrow> chunk list \<Rightarrow> bool" where
  "select_ok m r \<longleftrightarrow> int (total_text_length r) \<le> m \<and> length r \<le> 8
       \<and> (of_nat (total_text_length (butlast r)) :: rat) \<le> of_int m * (8 / 10)"

definition mk_chunk :: "nat \<Rightarrow> rat \<Rightarrow> string \<Rightarrow> chunk" where
  "mk_chunk n s t = \<lparr>chunk_text = Some (replicate n CHR ''x''), chunk_score = Some s,
     chunk_type = Some t, chunk_source = Some ''vector_db''\<rparr>"

section \<open>Symbol extraction from the query text\<close>

text \<open>
  The regular expressions of \<^verbatim>\<open>StockRAGRetriever._extract_symbol_from_query\<close> are built
  from the constructs below. \<open>rx_match r prev s\<close> lists the ways \<open>r\<close> matches a prefix of
  \<open>s\<close>, in the order in which the backtracking matcher of \<^verbatim>\<open>re\<close> tries them (greedy
  repetitions longest first, alternatives left to right), each as the number of characters
  consumed and the text of the capture group if it took part; \<open>prev\<close> is the character before
  \<open>s\<close>, for \<^verbatim>\<open>\b\<close>. The first entry is the match \<^verbatim>\<open>re\<close> reports at that position.
\<close>

definition is_word_char :: "char \<Rightarrow> bool" where
  "is_word_char c \<longleftrightarrow> is_ascii_upper c \<or> is_ascii_lower c \<or> is_ascii_digit c \<or> c = CHR ''_''"

definition is_word_opt :: "char option \<Rightarrow> bool" where
  "is_word_opt p = (case p of None \<Rightarrow> False | Some c \<Rightarrow> is_word_char c)"

definition py_isalpha :: "string \<Rightarrow> bool" where
  "py_isalpha s \<longleftrightarrow> s \<noteq> [] \<and> list_all (\<lambda>c. is_ascii_upper c \<or> is_ascii_lower c) s"

datatype rx =
    Lit string           \<comment> \<open>literal text\<close>
  | UpperRep nat nat     \<comment> \<open>\<^verbatim>\<open>[A-Z]{lo,hi}\<close>\<close>
  | Spaces1              \<comment> \<open>\<^verbatim>\<open>\s+\<close>\<close>
  | WB                   \<comment> \<open>\<^verbatim>\<open>\b\<close>\<close>
  | Grp rx               \<comment> \<open>capture group\<close>
  | Seq rx rx
  | Alt rx rx
  | Opt rx               \<comment> \<open>\<^verbatim>\<open>(?:...)?\<close>\<close>

definition prev_at :: "char option \<Rightarrow> string \<Rightarrow> nat \<Rightarrow> char option" where
  "prev_at prev s n = (if n = 0 \<or> n > length s then prev else Some (s ! (n - 1)))"

fun rx_match :: "rx \<Rightarrow> char option \<Rightarrow> string \<Rightarrow> (nat \<times> string option) list" where
  "rx_match (Lit l) prev s = (if take (length l) s = l then [(length l, None)] else [])"
| "rx_match (UpperRep lo hi) prev s =
     (let k = min hi (length (takeWhile is_ascii_upper s))
      in map (\<lambda>n. (n, None)) (rev [lo..<Suc k]))"
| "rx_match Spaces1 prev s =
     (let k = length (takeWhile py_isspace s)
      in map (\<lambda>n. (n, None)) (rev [1..<Suc k]))"
| "rx_match WB prev s =
     (if is_word_opt prev \<noteq> is_word_opt (case s of [] \<Rightarrow> None | c # _ \<Rightarrow> Some c)
      then [(0, None)] else [])"
| "rx_match (Grp r) prev s = map (\<lambda>(n, g). (n, Some (take n s))) (rx_match r prev s)"
| "rx_match (Seq a b) prev s =
     concat (map (\<lambda>(n1, g1).
                map (\<lambda>(n2, g2). (n1 + n2, case g2 of None \<Rightarrow> g1 | Some g \<Rightarrow> Some g))
                    (rx_match b (prev_at prev s n1) (drop n1 s)))
             (rx_match a prev s))"
| "rx_match (Alt a b) prev s = rx_match a prev s @ rx_match b prev s"
| "rx_match (Opt r) prev s = rx_match r prev s @ [(0, None)]"

text \<open>
  \<^verbatim>\<open>re.findall\<close> for a pattern with one group: scan from the left, take the first match at
  the leftmost position that has one, record its group, go on behind the match. \<open>skip\<close>
  counts the characters of the last match still to be passed over.
\<close>

fun findall_from :: "rx \<Rightarrow> nat \<Rightarrow> char option \<Rightarrow> string \<Rightarrow> string list" where
  "findall_from r skip prev [] =
     (if skip = 0 then (case rx_match r prev [] of
                          [] \<Rightarrow> []
                        | (n, g) # _ \<Rightarrow> [case g of None \<Rightarrow> [] | Some t \<Rightarrow> t])
      else [])"
| "findall_from r skip prev (c # cs) =
     (if skip > 0 then findall_from r (skip - 1) (Some c) cs
      else case rx_match r prev (c # cs) of
             [] \<Rightarrow> findall_from r 0 (Some c) cs
           | (n, g) # _ \<Rightarrow> (case g of None \<Rightarrow> [] | Some t \<Rightarrow> t) # findall_from r (n - 1) (Some c) cs)"

definition findall :: "rx \<Rightarrow> string \<Rightarrow> string list" where
  "findall r s = findall_from r 0 None s"

text \<open>
  The three patterns, in the order of the source:
  \<^verbatim>\<open>\b([A-Z]{1,5})\b(?:\s+stock|\s+shares?|\s+company)?\<close>,
  \<^verbatim>\<open>\$([A-Z]{1,5})\b\<close> and
  \<^verbatim>\<open>\b([A-Z]{1,5})\s+(?:stock|shares?|company|corp|inc)\b\<close>.
\<close>

definition pattern1 :: rx where
  "pattern1 = Seq WB (Seq (Grp (UpperRep 1 5)) (Seq WB
     (Opt (Alt (Seq Spaces1 (Lit ''stock''))
          (Alt (Seq Spaces1 (Seq (Lit ''share'') (Opt (Lit ''s''))))
               (Seq Spaces1 (Lit ''company'')))))))"

definition pattern2 :: rx where
  "pattern2 = Seq (Lit ''$'') (Seq (Grp (UpperRep 1 5)) WB)"

definition pattern3 :: rx where
  "pattern3 = Seq WB (Seq (Grp (UpperRep 1 5)) (Seq Spaces1
     (Seq (Alt (Lit ''stock'')
          (Alt (Seq (Lit ''share'') (Opt (Lit ''s'')))
          (Alt (Lit ''company'') (Alt (Lit ''corp'') (Lit ''inc'')))))
      WB)))"

definition patterns :: "rx list" where
  "patterns = [pattern1, pattern2, pattern3]"

definition valid_symbol :: "string \<Rightarrow> bool" where
  "valid_symbol m \<longleftrightarrow> 1 \<le> length m \<and> length m \<le> 5 \<and> py_isalpha m"

text \<open>
  The loop over the patterns: the first match of a pattern that passes the length and
  \<^verbatim>\<open>isalpha\<close> test is returned; a pattern with no such match leaves the turn to the next.
\<close>

fun match_patterns :: "rx list \<Rightarrow> string \<Rightarrow> string option" where
  "match_patterns [] q = None"
| "match_patterns (p # ps) q =
     (case find valid_symbol (findall p q) of
        Some m \<Rightarrow> Some m
      | None \<Rightarrow> match_patterns ps q)"

definition stop_words :: "string list" where
  "stop_words = [''stock'', ''share'', ''shares'', ''company'', ''corp'', ''corporation'', ''inc'',
     ''ltd'', ''price'', ''performance'', ''analysis'', ''recent'', ''latest'', ''current'',
     ''tell'', ''me'', ''about'', ''what'', ''how'', ''is'', ''the'', ''a'', ''an'', ''and'', ''or'']"

fun py_join :: "string \<Rightarrow> string list \<Rightarrow> string" where
  "py_join sep [] = []"
| "py_join sep [w] = w"
| "py_join sep (w # ws) = w @ sep @ py_join sep ws"

definition extract_company_keywords :: "string \<Rightarrow> string" where
  "extract_company_keywords query =
     (let words = py_split (py_lower query);
          keywords = filter (\<lambda>word. word \<notin> set stop_words \<and> length word > 2) words
      in py_join '' '' (take 3 keywords))"

text \<open>
  \<^verbatim>\<open>_extract_symbol_from_query\<close>. The company search of the data processor is a parameter:
  it raises, returns \<^verbatim>\<open>None\<close>, or returns the list of its hits, each with the value of its
  \<^verbatim>\<open>"symbol"\<close> key if it has one.
\<close>

definition extract_symbol_from_query ::
  "(string \<Rightarrow> py_error + string option list option) \<Rightarrow> string \<Rightarrow> py_error + string option" where
  "extract_symbol_from_query search_company query =
     (case match_patterns patterns (py_upper query) of
        Some m \<Rightarrow> Inr (Some m)
      | None \<Rightarrow>
          (let company_keywords = extract_company_keywords query
           in if company_keywords \<noteq> []
              then (case search_company company_keywords of
                      Inl e \<Rightarrow> Inl e
                    | Inr None \<Rightarrow> Inr None
                    | Inr (Some []) \<Rightarrow> Inr None
                    | Inr (Some (hit # _)) \<Rightarrow> Inr hit)
              else Inr None))"

section \<open>The vector index store\<close>

text \<open>
  \<^verbatim>\<open>FAISSVectorDB\<close>. A document is the dictionary \<^verbatim>\<open>add_company_data\<close> builds; the store
  keeps the texts, the documents as metadata, the map from symbol to positions (a Python
  dictionary, in insertion order) and the FAISS flat index, here the list of its vectors
  (\<^verbatim>\<open>index.ntotal\<close> is its length). Vectors are lists of reals where the source has
  32-bit floats. Writing the four files to disk (\<^verbatim>\<open>_save_index\<close>, which swallows its
  errors) changes nothing in memory and is left out.
\<close>

type_synonym vector = "real list"

record document =
  doc_text :: string
  doc_type :: string
  doc_symbol :: string
  doc_timestamp :: string
  doc_article_date :: "string option"
  doc_source :: "string option"

record vector_db =
  documents :: "string list"
  metadata :: "document list"
  company_index :: "(string \<times> nat list) list"
  index :: "vector list"
  dimension :: nat

text \<open>\<^verbatim>\<open>company_index.get(key, [])\<close>, and appending a position under a key.\<close>

definition index_get :: "(string \<times> nat list) list \<Rightarrow> string \<Rightarrow> nat list" where
  "index_get ci k = (case map_of ci k of None \<Rightarrow> [] | Some ps \<Rightarrow> ps)"

definition index_append :: "string \<Rightarrow> nat \<Rightarrow> (string \<times> nat list) list \<Rightarrow> (string \<times> nat list) list" where
  "index_append k p ci = AList.update k (index_get ci k @ [p]) ci"

text \<open>\<^verbatim>\<open>faiss.normalize_L2\<close> on one row; a row of norm 0 is left as it is.\<close>

definition normalize_L2 :: "vector \<Rightarrow> vector" where
  "normalize_L2 v = (let nr = sum_list (map (\<lambda>x. x * x) v)
                     in if nr > 0 then map (\<lambda>x. x / sqrt nr) v else v)"

definition create_new_index :: "vector_db \<Rightarrow> vector_db" where
  "create_new_index st = st\<lparr>documents := [], metadata := [], company_index := [], index := []\<rparr>"

text \<open>
  The loop of \<^verbatim>\<open>_add_documents\<close> that stores the documents; \<open>pos\<close> is \<^verbatim>\<open>start_idx + i\<close>.
\<close>

fun store_documents :: "nat \<Rightarrow> document list \<Rightarrow> vector_db \<Rightarrow> vector_db" where
  "store_documents pos [] st = st"
| "store_documents pos (doc # rest) st =
     store_documents (Suc pos) rest
       (st\<lparr>documents := documents st @ [doc_text doc],
           metadata := metadata st @ [doc],
           company_index := index_append (doc_symbol doc) pos (company_index st)\<rparr>)"

text \<open>
  \<^verbatim>\<open>_add_documents\<close>. The embedding provider \<^verbatim>\<open>embedding_manager.get_embeddings\<close> is a
  parameter; it catches its own errors and returns \<^verbatim>\<open>None\<close> for them. \<open>calls\<close> is the log of
  the calls made to it. The function returns nothing: its result here is the error it
  raised, if any, with the store and the log. \<^verbatim>\<open>np.array\<close> raises on rows of unequal length
  and \<^verbatim>\<open>index.add\<close> on rows of another dimension than the index, both before the store is
  touched.
\<close>

definition add_documents ::
  "(string list \<Rightarrow> vector list option) \<Rightarrow> vector_db \<Rightarrow> string list list \<Rightarrow> document list
     \<Rightarrow> py_error option \<times> vector_db \<times> string list list" where
  "add_documents get_embeddings st calls docs =
     (let texts = map doc_text docs;
          calls' = calls @ [texts]
      in case get_embeddings texts of
           None \<Rightarrow> (None, st, calls')
         | Some [] \<Rightarrow> (None, st, calls')
         | Some (e # es) \<Rightarrow>
             if \<not> list_all (\<lambda>x. length x = length e) es then (Some ValueError, st, calls')
             else if length e \<noteq> dimension st then (Some AssertionError, st, calls')
             else let start_idx = length (documents st);
                      st1 = st\<lparr>index := index st @ map normalize_L2 (e # es)\<rparr>
                  in (None, store_documents start_idx docs st1, calls'))"

subsection \<open>The document formatters\<close>

text \<open>
  The category records are dictionaries read with \<^verbatim>\<open>.get\<close>: \<open>None\<close> is a missing key.
  Numbers are exact rationals; how Python prints their digits (\<^verbatim>\<open>:,\<close>, \<^verbatim>\<open>:.2f\<close>, \<^verbatim>\<open>:.2%\<close>) is a
  parameter. The sign-forcing \<^verbatim>\<open>:+.2f\<close> prints the sign of the number, \<^verbatim>\<open>+\<close> for zero, before
  what \<^verbatim>\<open>:.2f\<close> prints for its absolute value (the negative zero of floating point, printed
  with \<^verbatim>\<open>-\<close>, has no counterpart here).
\<close>

record number_format =
  fmt_comma :: "rat \<Rightarrow> string"
  fmt_2f :: "rat \<Rightarrow> string"
  fmt_pct2 :: "rat \<Rightarrow> string"

definition fmt_plus_2f :: "number_format \<Rightarrow> rat \<Rightarrow> string" where
  "fmt_plus_2f nf x = (if x < 0 then ''-'' else ''+'') @ fmt_2f nf \<bar>x\<bar>"

record company_info =
  ci_name :: "string option"
  ci_description :: "string option"
  ci_sector :: "string option"
  ci_industry :: "string option"
  ci_market_cap :: "rat option"
  ci_employees :: "rat option"

record key_metric =
  km_pe_ratio :: "rat option"
  km_debt_to_equity :: "rat option"
  km_roe :: "rat option"

text \<open>
  \<open>fi_key_metrics\<close>: \<open>None\<close> when \<^verbatim>\<open>"key_metrics"\<close> is not in the record, else the list under
  the inner \<^verbatim>\<open>"key_metrics"\<close> key, itself \<open>None\<close> when missing. Likewise for recommendations.
\<close>

record financial_info =
  fi_key_metrics :: "key_metric list option option"

record price_point =
  pp_close :: "rat option"

record historical_info =
  hi_data :: "price_point list option"

record recommendation =
  rec_to_grade :: "string option"

record analyst_info =
  ai_recommendations :: "recommendation list option option"

definition str_part :: "string \<Rightarrow> string option \<Rightarrow> string list" where
  "str_part label v = (case v of None \<Rightarrow> [] | Some s \<Rightarrow> if s = [] then [] else [label @ s])"

definition num_part :: "string \<Rightarrow> (rat \<Rightarrow> string) \<Rightarrow> rat option \<Rightarrow> string list" where
  "num_part label fmt v = (case v of None \<Rightarrow> [] | Some x \<Rightarrow> if x = 0 then [] else [label @ fmt x])"

definition format_company_overview :: "number_format \<Rightarrow> string \<Rightarrow> company_info \<Rightarrow> string" where
  "format_company_overview nf symbol company_info =
     py_join '' | ''
       ([''Company: '' @ (case ci_name company_info of None \<Rightarrow> symbol | Some n \<Rightarrow> n)
           @ '' ('' @ symbol @ '')'']
        @ str_part ''Description: '' (ci_description company_info)
        @ str_part ''Sector: '' (ci_sector company_info)
        @ str_part ''Industry: '' (ci_industry company_info)
        @ num_part ''Market Cap: $'' (fmt_comma nf) (ci_market_cap company_info)
        @ num_part ''Employees: '' (fmt_comma nf) (ci_employees company_info))"

definition format_financial_data :: "number_format \<Rightarrow> string \<Rightarrow> financial_info \<Rightarrow> string" where
  "format_financial_data nf symbol financial_info =
     py_join '' | ''
       ([''Financial Data for '' @ symbol]
        @ (case fi_key_metrics financial_info of
             None \<Rightarrow> []
           | Some inner \<Rightarrow>
               (case (case inner of None \<Rightarrow> [] | Some ms \<Rightarrow> ms) of
                  [] \<Rightarrow> []
                | latest # _ \<Rightarrow>
                    num_part ''P/E Ratio: '' (fmt_2f nf) (km_pe_ratio latest)
                    @ num_part ''Debt-to-Equity: '' (fmt_2f nf) (km_debt_to_equity latest)
                    @ num_part ''ROE: '' (fmt_pct2 nf) (km_roe latest))))"

definition py_div :: "rat \<Rightarrow> rat \<Rightarrow> py_error + rat" where
  "py_div a b = (if b = 0 then Inl ZeroDivisionError else Inr (a / b))"

text \<open>
  \<^verbatim>\<open>[d["close"] for d in data[:30] if d.get("close")]\<close>: the closes of the first 30 data
  points that are present and not zero.
\<close>

definition recent_prices :: "historical_info \<Rightarrow> rat list" where
  "recent_prices historical_info =
     List.map_filter
       (\<lambda>d. case pp_close d of None \<Rightarrow> None | Some c \<Rightarrow> if c = 0 then None else Some c)
       (take 30 (case hi_data historical_info of None \<Rightarrow> [] | Some data \<Rightarrow> data))"

definition format_historical_data :: "number_format \<Rightarrow> string \<Rightarrow> historical_info \<Rightarrow> py_error + string" where
  "format_historical_data nf symbol historical_info =
     (case (case hi_data historical_info of None \<Rightarrow> [] | Some data \<Rightarrow> data) of
        [] \<Rightarrow> Inr (''Historical data for '' @ symbol)
      | _ # _ \<Rightarrow>
          (let prices = recent_prices historical_info
           in if length prices \<ge> 2
              then (let current_price = hd prices;
                        month_ago_price = last prices
                    in case py_div (current_price - month_ago_price) month_ago_price of
                         Inl e \<Rightarrow> Inl e
                       | Inr q \<Rightarrow>
                           Inr (''Historical Performance for '' @ symbol @ '': Current $''
                                @ fmt_2f nf current_price @ '', 30-day change: ''
                                @ fmt_plus_2f nf (q * 100) @ ''%''))
              else Inr (''Historical data for '' @ symbol)))"

definition format_news_article :: "string \<Rightarrow> article \<Rightarrow> string" where
  "format_news_article symbol a =
     py_join '' | ''
       ([''News for '' @ symbol]
        @ str_part ''Title: '' (title a)
        @ str_part ''Summary: '' (summary a)
        @ str_part ''Published: '' (published a)
        @ str_part ''Source: '' (publisher a))"

definition format_analyst_data :: "string \<Rightarrow> analyst_info \<Rightarrow> string" where
  "format_analyst_data symbol analyst_info =
     py_join '' | ''
       ([''Analyst Data for '' @ symbol]
        @ (case ai_recommendations analyst_info of
             None \<Rightarrow> []
           | Some inner \<Rightarrow>
               (let recs = (case inner of None \<Rightarrow> [] | Some rs \<Rightarrow> rs);
                    grades = List.map_filter
                      (\<lambda>r. case rec_to_grade r of None \<Rightarrow> None | Some g \<Rightarrow> if g = [] then None else Some g)
                      (take 5 recs);
                    rec_summary = py_join '', '' grades
                in if rec_summary = [] then [] else [''Recent Recommendations: '' @ rec_summary])))"

subsection \<open>Adding the data of a company\<close>

text \<open>
  The company-data record of \<^verbatim>\<open>add_company_data\<close>. \<open>None\<close> stands for every value of a
  category that Python takes as false where a dictionary is expected (a missing key,
  \<^verbatim>\<open>None\<close>, an empty dictionary); a category record stands for a non-empty dictionary. The
  news list is false when it is missing or empty. \<open>now\<close> is \<^verbatim>\<open>datetime.now().isoformat()\<close>.
\<close>

record company_data =
  cd_company :: "company_info option"
  cd_financial :: "financial_info option"
  cd_historical :: "historical_info option"
  cd_news :: "article list option"
  cd_analyst :: "analyst_info option"

definition mk_doc :: "string \<Rightarrow> string \<Rightarrow> string \<Rightarrow> string \<Rightarrow> document" where
  "mk_doc text type symbol now =
     \<lparr>doc_text = text, doc_type = type, doc_symbol = symbol, doc_timestamp = now,
      doc_article_date = None, doc_source = None\<rparr>"

definition news_doc :: "string \<Rightarrow> string \<Rightarrow> article \<Rightarrow> document" where
  "news_doc symbol now a =
     \<lparr>doc_text = format_news_article symbol a, doc_type = ''news_article'', doc_symbol = symbol,
      doc_timestamp = now,
      doc_article_date = Some (case published a of None \<Rightarrow> [] | Some p \<Rightarrow> p),
      doc_source = Some (case news_source a of None \<Rightarrow> [] | Some s \<Rightarrow> s)\<rparr>"

text \<open>
  The list \<^verbatim>\<open>documents_to_add\<close>; only the historical formatter has a raise site. An
  exception leaves \<^verbatim>\<open>add_company_data\<close> through its handler before anything is stored.
\<close>

definition documents_to_add ::
  "number_format \<Rightarrow> string \<Rightarrow> string \<Rightarrow> company_data \<Rightarrow> py_error + document list" where
  "documents_to_add nf now symbol company_data =
     (let company_docs = (case cd_company company_data of
                            None \<Rightarrow> []
                          | Some c \<Rightarrow> [mk_doc (format_company_overview nf symbol c)
                                         ''company_overview'' symbol now]);
          financial_docs = (case cd_financial company_data of
                              None \<Rightarrow> []
                            | Some f \<Rightarrow> [mk_doc (format_financial_data nf symbol f)
                                           ''financial_data'' symbol now]);
          news_docs = (case cd_news company_data of
                         None \<Rightarrow> []
                       | Some news \<Rightarrow> map (news_doc symbol now) (take 10 news));
          analyst_docs = (case cd_analyst company_data of
                            None \<Rightarrow> []
                          | Some a \<Rightarrow> [mk_doc (format_analyst_data symbol a)
                                         ''analyst_data'' symbol now])
      in case cd_historical company_data of
           None \<Rightarrow> Inr (company_docs @ financial_docs @ news_docs @ analyst_docs)
         | Some h \<Rightarrow>
             (case format_historical_data nf symbol h of
                Inl e \<Rightarrow> Inl e
              | Inr t \<Rightarrow> Inr (company_docs @ financial_docs
                              @ [mk_doc t ''historical_data'' symbol now]
                              @ news_docs @ analyst_docs)))"

text \<open>
  \<^verbatim>\<open>add_company_data\<close>: the boolean it returns, the store and the log of embedding calls.
\<close>

definition add_company_data ::
  "number_format \<Rightarrow> (string list \<Rightarrow> vector list option) \<Rightarrow> string \<Rightarrow> vector_db \<Rightarrow> string list list
     \<Rightarrow> string \<Rightarrow> company_data \<Rightarrow> bool \<times> vector_db \<times> string list list" where
  "add_company_data nf get_embeddings now st calls symbol company_data =
     (case documents_to_add nf now symbol company_data of
        Inl e \<Rightarrow> (False, st, calls)
      | Inr docs \<Rightarrow>
          if docs \<noteq> []
          then (case add_documents get_embeddings st calls docs of
                  (Some e, st', calls') \<Rightarrow> (False, st', calls')
                | (None, st', calls') \<Rightarrow> (True, st', calls'))
          else (False, st, calls))"

text \<open>
  The invariant of the vector index: the texts, the metadata and the index have the same
  length, and every position listed under a symbol is a position of a document.
\<close>

definition store_invariant :: "vector_db \<Rightarrow> bool" where
  "store_invariant st \<longleftrightarrow>
     length (documents st) = length (metadata st) \<and> length (metadata st) = length (index st)
     \<and> list_all (\<lambda>(k, ps). list_all (\<lambda>p. p < length (documents st)) ps) (company_index st)"

definition empty_db :: "nat \<Rightarrow> vector_db" where
  "empty_db d = \<lparr>documents = [], metadata = [], company_index = [], index = [], dimension = d\<rparr>"

definition positions_below :: "nat \<Rightarrow> (string \<times> nat list) list \<Rightarrow> bool" where
  "positions_below n ci \<longleftrightarrow> (\<forall>(k, ps)\<in>set ci. \<forall>p\<in>set ps. p < n)"

text \<open>A record with a company overview only, and one with no category at all.\<close>

definition apple_data :: company_data where
  "apple_data =
     \<lparr>cd_company = Some \<lparr>ci_name = Some ''Apple'', ci_description = None, ci_sector = None,
                          ci_industry = None, ci_market_cap = None, ci_employees = None\<rparr>,
      cd_financial = None, cd_historical = None, cd_news = None, cd_analyst = None\<rparr>"

definition no_data :: company_data where
  "no_data = \<lparr>cd_company = None, cd_financial = None, cd_historical = None,
              cd_news = Some [], cd_analyst = None\<rparr>"

text \<open>A number format that prints nothing, for closed examples.\<close>

definition no_format :: number_format where
  "no_format = \<lparr>fmt_comma = (\<lambda>x. []), fmt_2f = (\<lambda>x. []), fmt_pct2 = (\<lambda>x. [])\<rparr>"

section \<open>Multi-source data fusion\<close>

text \<open>
  \<^verbatim>\<open>StockDataProcessor\<close>. What a call to a collector does is an input of the model: it returns
  a value Python takes as true (\<open>Success\<close>), returns \<^verbatim>\<open>None\<close> or another false value
  (\<open>Empty\<close>), or raises (\<open>Raises\<close>). A dictionary that names its origin under \<^verbatim>\<open>"source"\<close>
  is a \<open>sourced\<close> record; what else it holds is of an arbitrary type \<open>'a\<close>.
\<close>

datatype 'a outcome = Success 'a | Empty | Raises py_error

record 'a sourced =
  source :: "string option"
  payload :: 'a

record 'a collectors =
  yf_get_quote :: "'a sourced outcome"
  av_get_quote :: "'a sourced outcome"
  fmp_get_quote :: "'a sourced outcome"
  av_get_company_overview :: "'a sourced outcome"
  yf_get_company_info :: "'a sourced outcome"
  fmp_get_company_profile :: "'a sourced outcome"
  yf_get_daily_data :: "'a sourced outcome"
  av_get_daily_data :: "'a sourced outcome"
  fmp_get_daily_data :: "'a sourced outcome"
  fmp_get_key_metrics :: "'a outcome"
  fmp_get_financial_ratios :: "'a outcome"
  yf_get_financial_data :: "'a outcome"
  av_get_earnings :: "'a outcome"
  yf_get_news :: "article list outcome"
  fmp_get_stock_news :: "article list outcome"
  yf_get_analyst_recommendations :: "'a outcome"
  fmp_get_analyst_estimates :: "'a outcome"
  yf_get_earnings_calendar :: "'a outcome"
  fmp_get_earnings_calendar :: "'a outcome"

text \<open>
  The loop of \<^verbatim>\<open>_get_quote_data\<close>, \<^verbatim>\<open>_get_company_data\<close> and \<^verbatim>\<open>_get_historical_data\<close> over
  the sources in their order of preference: a true value is returned, a false one and an
  exception (caught and logged) pass the turn to the next source.
\<close>

fun first_success :: "'a outcome list \<Rightarrow> 'a option" where
  "first_success [] = None"
| "first_success (Success v # rest) = Some v"
| "first_success (Empty # rest) = first_success rest"
| "first_success (Raises e # rest) = first_success rest"

definition get_quote_data :: "'a collectors \<Rightarrow> 'a sourced option" where
  "get_quote_data c = first_success [yf_get_quote c, av_get_quote c, fmp_get_quote c]"

definition get_company_data :: "'a collectors \<Rightarrow> 'a sourced option" where
  "get_company_data c =
     first_success [av_get_company_overview c, yf_get_company_info c, fmp_get_company_profile c]"

definition get_historical_data :: "'a collectors \<Rightarrow> 'a sourced option" where
  "get_historical_data c =
     first_success [yf_get_daily_data c, av_get_daily_data c, fmp_get_daily_data c]"

text \<open>One \<^verbatim>\<open>try\<close> block that stores a true result under a key and swallows an exception.\<close>

definition attempt :: "'a outcome \<Rightarrow> 'a option" where
  "attempt r = (case r of Success v \<Rightarrow> Some v | Empty \<Rightarrow> None | Raises e \<Rightarrow> None)"

record 'a financial_data =
  fd_key_metrics :: "'a option"
  fd_financial_ratios :: "'a option"
  fd_financial_statements :: "'a option"
  fd_earnings :: "'a option"
  fd_source :: string

definition get_financial_data :: "'a collectors \<Rightarrow> 'a financial_data option" where
  "get_financial_data c =
     (let km = attempt (fmp_get_key_metrics c);
          fr = attempt (fmp_get_financial_ratios c);
          fs = attempt (yf_get_financial_data c);
          ea = attempt (av_get_earnings c)
      in if km \<noteq> None \<or> fr \<noteq> None \<or> fs \<noteq> None \<or> ea \<noteq> None
         then Some \<lparr>fd_key_metrics = km, fd_financial_ratios = fr, fd_financial_statements = fs,
                    fd_earnings = ea, fd_source = ''multiple''\<rparr>
         else None)"

record 'a analyst_data =
  ad_recommendations :: "'a option"
  ad_estimates :: "'a option"
  ad_earnings_calendar :: "'a option"
  ad_source :: string

text \<open>
  The earnings calendar is one \<^verbatim>\<open>try\<close> block: FMP is asked only when Yahoo returned a false
  value, and an exception of either ends the block.
\<close>

definition get_earnings_calendar :: "'a collectors \<Rightarrow> 'a option" where
  "get_earnings_calendar c =
     (case yf_get_earnings_calendar c of
        Success v \<Rightarrow> Some v
      | Raises e \<Rightarrow> None
      | Empty \<Rightarrow> attempt (fmp_get_earnings_calendar c))"

definition get_analyst_data :: "'a collectors \<Rightarrow> 'a analyst_data option" where
  "get_analyst_data c =
     (let re = attempt (yf_get_analyst_recommendations c);
          es = attempt (fmp_get_analyst_estimates c);
          ca = get_earnings_calendar c
      in if re \<noteq> None \<or> es \<noteq> None \<or> ca \<noteq> None
         then Some \<lparr>ad_recommendations = re, ad_estimates = es, ad_earnings_calendar = ca,
                    ad_source = ''multiple''\<rparr>
         else None)"

text \<open>
  \<^verbatim>\<open>_get_news_data\<close>: the true lists of both sources, deduplicated and sorted, most recent
  first, by \<^verbatim>\<open>x.get("published", x.get("published_date", ""))\<close>. Deduplication and sorting
  are outside the \<^verbatim>\<open>try\<close> blocks: an error there leaves the task.
\<close>

definition news_list :: "article list outcome \<Rightarrow> article list" where
  "news_list r = (case r of Success v \<Rightarrow> v | Empty \<Rightarrow> [] | Raises e \<Rightarrow> [])"

definition published_key :: "article \<Rightarrow> string" where
  "published_key x =
     (case published x of
        Some p \<Rightarrow> p
      | None \<Rightarrow> (case published_date x of Some d \<Rightarrow> d | None \<Rightarrow> []))"

definition sort_reverse :: "('b \<Rightarrow> string) \<Rightarrow> 'b list \<Rightarrow> 'b list" where
  "sort_reverse key xs = rev (sort_key key (rev xs))"

definition get_news_data :: "'a collectors \<Rightarrow> py_error + article list option" where
  "get_news_data c =
     (let all_news = news_list (yf_get_news c) @ news_list (fmp_get_stock_news c)
      in if all_news \<noteq> []
         then (case deduplicate_news all_news of
                 Inl e \<Rightarrow> Inl e
               | Inr unique_news \<Rightarrow> Inr (Some (sort_reverse published_key unique_news)))
         else Inr None)"

text \<open>
  The record \<^verbatim>\<open>get_comprehensive_stock_data\<close> returns. \<^verbatim>\<open>asyncio.gather\<close> with
  \<^verbatim>\<open>return_exceptions=True\<close> hands each task's result or its exception over; \<open>Inl\<close> is the
  exception. The tasks are independent, so their interleaving is not modelled.
\<close>

record 'a comprehensive =
  cs_symbol :: string
  cs_timestamp :: string
  cs_quote :: "'a sourced option"
  cs_company :: "'a sourced option"
  cs_historical :: "'a sourced option"
  cs_financial :: "'a financial_data option"
  cs_news :: "article list option"
  cs_analyst :: "'a analyst_data option"
  sources_used :: "string list"

definition not_exception :: "py_error + 'b option \<Rightarrow> 'b option" where
  "not_exception r = (case r of Inl e \<Rightarrow> None | Inr v \<Rightarrow> v)"

definition add_source :: "string option \<Rightarrow> string list \<Rightarrow> string list" where
  "add_source s used = (case s of None \<Rightarrow> used | Some x \<Rightarrow> if x \<in> set used then used else used @ [x])"

definition first_news_source :: "article list option \<Rightarrow> string option" where
  "first_news_source v = (case v of None \<Rightarrow> None | Some [] \<Rightarrow> None | Some (a # _) \<Rightarrow> news_source a)"

definition aggregate ::
  "string \<Rightarrow> string \<Rightarrow> py_error + 'a sourced option \<Rightarrow> py_error + 'a sourced option
     \<Rightarrow> py_error + 'a sourced option \<Rightarrow> py_error + 'a financial_data option
     \<Rightarrow> py_error + article list option \<Rightarrow> py_error + 'a analyst_data option \<Rightarrow> 'a comprehensive" where
  "aggregate symbol now quote_data company_data historical_data financial_data news_data analyst_data =
     (let q = not_exception quote_data;
          co = not_exception company_data;
          h = not_exception historical_data;
          f = not_exception financial_data;
          n = not_exception news_data;
          a = not_exception analyst_data;
          used = add_source (map_option ad_source a)
                  (add_source (first_news_source n)
                    (add_source (map_option fd_source f)
                      (add_source (Option.bind h source)
                        (add_source (Option.bind co source)
                          (add_source (Option.bind q source) [])))))
      in \<lparr>cs_symbol = py_upper symbol, cs_timestamp = now, cs_quote = q, cs_company = co,
          cs_historical = h, cs_financial = f, cs_news = n, cs_analyst = a,
          sources_used = used\<rparr>)"

definition get_comprehensive_stock_data :: "string \<Rightarrow> 'a collectors \<Rightarrow> string \<Rightarrow> 'a comprehensive" where
  "get_comprehensive_stock_data now c symbol =
     aggregate symbol now (Inr (get_quote_data c)) (Inr (get_company_data c))
       (Inr (get_historical_data c)) (Inr (get_financial_data c)) (get_news_data c)
       (Inr (get_analyst_data c))"

definition raised :: "'b outcome \<Rightarrow> bool" where
  "raised r = (case r of Raises e \<Rightarrow> True | Success v \<Rightarrow> False | Empty \<Rightarrow> False)"

definition failed :: "'b outcome \<Rightarrow> bool" where
  "failed r = (case r of Success v \<Rightarrow> False | Raises e \<Rightarrow> True | Empty \<Rightarrow> True)"

text \<open>Collectors of which Yahoo's quote raises, Alpha Vantage's succeeds, and nothing else
  has data.\<close>

definition yahoo_quote_down :: "unit collectors" where
  "yahoo_quote_down =
     \<lparr>yf_get_quote = Raises RuntimeError,
      av_get_quote = Success \<lparr>source = Some ''alpha_vantage'', payload = ()\<rparr>,
      fmp_get_quote = Empty,
      av_get_company_overview = Empty, yf_get_company_info = Empty,
      fmp_get_company_profile = Empty,
      yf_get_daily_data = Empty, av_get_daily_data = Empty, fmp_get_daily_data = Empty,
      fmp_get_key_metrics = Empty, fmp_get_financial_ratios = Empty,
      yf_get_financial_data = Empty, av_get_earnings = Empty,
      yf_get_news = Raises RuntimeError, fmp_get_stock_news = Empty,
      yf_get_analyst_recommendations = Empty, fmp_get_analyst_estimates = Empty,
      yf_get_earnings_calendar = Empty, fmp_get_earnings_calendar = Empty\<rparr>"

section \<open>The vector index store: removing, statistics, searching\<close>

text \<open>
  The loop of \<^verbatim>\<open>remove_company_data\<close> over \<^verbatim>\<open>enumerate(zip(documents, metadata))\<close>, with its
  state \<open>remaining_documents\<close>, \<open>remaining_metadata\<close>, \<open>new_company_index\<close>; \<open>new_idx\<close> is the
  length of \<open>remaining_documents\<close>.
\<close>

fun remove_loop ::
  "nat list \<Rightarrow> nat \<Rightarrow> (string \<times> document) list
     \<Rightarrow> string list \<times> document list \<times> (string \<times> nat list) list
     \<Rightarrow> string list \<times> document list \<times> (string \<times> nat list) list" where
  "remove_loop indices i [] acc = acc"
| "remove_loop indices i ((doc, meta) # rest) (remaining_documents, remaining_metadata, new_company_index) =
     (if i \<notin> set indices
      then remove_loop indices (Suc i) rest
             (remaining_documents @ [doc], remaining_metadata @ [meta],
              index_append (py_upper (doc_symbol meta)) (length remaining_documents)
                new_company_index)
      else remove_loop indices (Suc i) rest
             (remaining_documents, remaining_metadata, new_company_index))"

text \<open>
  \<^verbatim>\<open>remove_company_data\<close>. The rebuild of the index is handed to the event loop with
  \<^verbatim>\<open>asyncio.create_task\<close> and runs after the function has returned; \<open>loop_running\<close> says
  whether the caller runs inside an event loop. Without one \<^verbatim>\<open>create_task\<close> raises
  \<open>RuntimeError\<close>, which the handler of the function turns into \<open>False\<close>, after the three
  lists have been replaced.
\<close>

definition remove_company_data :: "bool \<Rightarrow> vector_db \<Rightarrow> string \<Rightarrow> bool \<times> vector_db" where
  "remove_company_data loop_running st symbol =
     (let indices = index_get (company_index st) (py_upper symbol)
      in if indices = [] then (False, st)
         else (case remove_loop indices 0 (zip (documents st) (metadata st)) ([], [], []) of
                 (remaining_documents, remaining_metadata, new_company_index) \<Rightarrow>
                   if length remaining_documents < length (documents st)
                   then (let st' = st\<lparr>documents := remaining_documents,
                                       metadata := remaining_metadata,
                                       company_index := new_company_index\<rparr>
                         in if remaining_documents \<noteq> []
                            then (if loop_running then (True, st') else (False, st'))
                            else (True, create_new_index st'))
                   else (False, st)))"

text \<open>
  \<^verbatim>\<open>_rebuild_index\<close>, the task scheduled by a removal. The new empty index is in place
  before the embeddings are added, so an error of \<^verbatim>\<open>np.array\<close> or \<^verbatim>\<open>index.add\<close> (caught and
  logged) leaves the index empty.
\<close>

definition rebuild_index :: "(string list \<Rightarrow> vector list option) \<Rightarrow> vector_db \<Rightarrow> vector_db" where
  "rebuild_index get_embeddings st =
     (if documents st = [] then create_new_index st
      else case get_embeddings (documents st) of
             None \<Rightarrow> st
           | Some [] \<Rightarrow> st
           | Some (e # es) \<Rightarrow>
               if \<not> list_all (\<lambda>x. length x = length e) es \<or> length e \<noteq> dimension st
               then st\<lparr>index := []\<rparr>
               else st\<lparr>index := map normalize_L2 (e # es)\<rparr>)"

record stats =
  total_documents :: nat
  total_companies :: nat
  index_size :: nat
  stats_dimension :: nat
  companies :: "string list"

definition get_stats :: "vector_db \<Rightarrow> stats" where
  "get_stats st =
     \<lparr>total_documents = length (documents st),
      total_companies = length (company_index st),
      index_size = length (index st),
      stats_dimension = dimension st,
      companies = map fst (company_index st)\<rparr>"

text \<open>
  \<^verbatim>\<open>search\<close>. The nearest-neighbour routines of FAISS are parameters: \<open>knn\<close> is
  \<^verbatim>\<open>faiss.knn\<close> and \<open>index_search\<close> is \<^verbatim>\<open>index.search\<close>, each giving the first row of scores
  and positions, paired, or an error. A position is a machine integer and may be negative.
  Every exception inside \<^verbatim>\<open>search\<close> is caught and gives the empty list.
\<close>

record search_result =
  sr_text :: string
  sr_metadata :: document
  sr_score :: real
  sr_index :: nat

fun filtered_results ::
  "vector_db \<Rightarrow> nat list \<Rightarrow> (real \<times> int) list \<Rightarrow> py_error + search_result list" where
  "filtered_results st candidate_indices [] = Inr []"
| "filtered_results st candidate_indices ((score, idx) # rest) =
     (if idx < int (length candidate_indices)
      then (if idx < - int (length candidate_indices) then Inl IndexError
            else (let original_idx =
                        candidate_indices ! nat (if idx < 0 then idx + int (length candidate_indices)
                                                 else idx)
                  in if original_idx < length (documents st) \<and> original_idx < length (metadata st)
                     then (case filtered_results st candidate_indices rest of
                             Inl e \<Rightarrow> Inl e
                           | Inr rs \<Rightarrow>
                               Inr (\<lparr>sr_text = documents st ! original_idx,
                                     sr_metadata = metadata st ! original_idx,
                                     sr_score = score, sr_index = original_idx\<rparr> # rs))
                     else Inl IndexError))
      else filtered_results st candidate_indices rest)"

fun unfiltered_results :: "vector_db \<Rightarrow> (real \<times> int) list \<Rightarrow> py_error + search_result list" where
  "unfiltered_results st [] = Inr []"
| "unfiltered_results st ((score, idx) # rest) =
     (if 0 \<le> idx \<and> idx < int (length (documents st))
      then (if nat idx < length (metadata st)
            then (case unfiltered_results st rest of
                    Inl e \<Rightarrow> Inl e
                  | Inr rs \<Rightarrow>
                      Inr (\<lparr>sr_text = documents st ! nat idx, sr_metadata = metadata st ! nat idx,
                            sr_score = score, sr_index = nat idx\<rparr> # rs))
            else Inl IndexError)
      else unfiltered_results st rest)"

definition search ::
  "(string list \<Rightarrow> vector list option)
     \<Rightarrow> (vector \<Rightarrow> vector list \<Rightarrow> int \<Rightarrow> py_error + (real \<times> int) list)
     \<Rightarrow> (vector list \<Rightarrow> vector \<Rightarrow> int \<Rightarrow> py_error + (real \<times> int) list)
     \<Rightarrow> vector_db \<Rightarrow> string \<Rightarrow> int \<Rightarrow> string option \<Rightarrow> search_result list" where
  "search get_embeddings knn index_search st query k symbol_filter =
     (if length (index st) = 0 then []
      else case get_embeddings [query] of
             None \<Rightarrow> []
           | Some [] \<Rightarrow> []
           | Some (qe # others) \<Rightarrow>
               if \<not> list_all (\<lambda>x. length x = length qe) others then []
               else (let query_vector = normalize_L2 qe
                     in if symbol_filter \<noteq> None \<and> symbol_filter \<noteq> Some []
                        then (let candidate_indices =
                                    index_get (company_index st) (py_upper (the symbol_filter))
                              in if candidate_indices = [] then []
                                 else if \<not> list_all (\<lambda>idx. idx < length (index st)) candidate_indices
                                 then []
                                 else (case knn query_vector
                                              (map (\<lambda>idx. index st ! idx) candidate_indices)
                                              (min k (int (length candidate_indices))) of
                                         Inl e \<Rightarrow> []
                                       | Inr hits \<Rightarrow>
                                           (case filtered_results st candidate_indices hits of
                                              Inl e \<Rightarrow> []
                                            | Inr rs \<Rightarrow> rs)))
                        else (case index_search (index st) query_vector k of
                                Inl e \<Rightarrow> []
                              | Inr hits \<Rightarrow>
                                  (case unfiltered_results st hits of
                                     Inl e \<Rightarrow> []
                                   | Inr rs \<Rightarrow> rs))))"

text \<open>
  The positions, counted from \<open>pos\<close>, of the documents of a list whose upper-cased symbol is
  \<open>k\<close>; and the store whose symbol index is exactly that map: keys without repetition, under
  each key the positions of its documents, no key without a document, no document without
  a key.
\<close>

fun positions_from :: "nat \<Rightarrow> string \<Rightarrow> document list \<Rightarrow> nat list" where
  "positions_from pos k [] = []"
| "positions_from pos k (m # ms) =
     (if py_upper (doc_symbol m) = k then pos # positions_from (Suc pos) k ms
      else positions_from (Suc pos) k ms)"

definition index_consistent :: "vector_db \<Rightarrow> bool" where
  "index_consistent st \<longleftrightarrow>
     length (documents st) = length (metadata st)
     \<and> distinct (map fst (company_index st))
     \<and> list_all (\<lambda>(k, ps). ps \<noteq> [] \<and> ps = positions_from 0 k (metadata st)) (company_index st)
     \<and> list_all (\<lambda>m. py_upper (doc_symbol m) \<in> set (map fst (company_index st))) (metadata st)"

text \<open>Bookkeeping for the proofs about the loop.\<close>

fun keep_from :: "nat list \<Rightarrow> nat \<Rightarrow> 'a list \<Rightarrow> 'a list" where
  "keep_from indices i [] = []"
| "keep_from indices i (z # zs) =
     (if i \<notin> set indices then z # keep_from indices (Suc i) zs else keep_from indices (Suc i) zs)"

fun build_index :: "nat \<Rightarrow> document list \<Rightarrow> (string \<times> nat list) list \<Rightarrow> (string \<times> nat list) list" where
  "build_index pos [] ci = ci"
| "build_index pos (m # ms) ci =
     build_index (Suc pos) ms (index_append (py_upper (doc_symbol m)) pos ci)"

text \<open>A store with one document of each of two companies.\<close>

definition two_symbol_db :: vector_db where
  "two_symbol_db =
     \<lparr>documents = [''Company: Apple (AAPL)'', ''Company: Microsoft (MSFT)''],
      metadata = [mk_doc ''Company: Apple (AAPL)'' ''company_overview'' ''AAPL'' ''2024-01-01'',
                  mk_doc ''Company: Microsoft (MSFT)'' ''company_overview'' ''MSFT'' ''2024-01-01''],
      company_index = [(''AAPL'', [0]), (''MSFT'', [1])],
      index = [[1, 0], [0, 1]],
      dimension = 2\<rparr>"

abbreviation key :: "document \<Rightarrow> string" where "key m \<equiv> py_upper (doc_symbol m)"

text \<open>The store without the documents of the symbol \<open>S\<close>, its symbol index built anew.\<close>

definition purged :: "vector_db \<Rightarrow> string \<Rightarrow> vector_db" where
  "purged st S =
     st\<lparr>documents := map fst (filter (\<lambda>(d, m). key m \<noteq> S) (zip (documents st) (metadata st))),
        metadata := filter (\<lambda>m. key m \<noteq> S) (metadata st),
        company_index := build_index 0 (filter (\<lambda>m. key m \<noteq> S) (metadata st)) []\<rparr>"

text \<open>Nearest-neighbour routines that find nothing, for closed examples.\<close>

definition no_knn :: "vector \<Rightarrow> vector list \<Rightarrow> int \<Rightarrow> py_error + (real \<times> int) list" where
  "no_knn q vs k = Inr []"

definition no_index_search :: "vector list \<Rightarrow> vector \<Rightarrow> int \<Rightarrow> py_error + (real \<times> int) list" where
  "no_index_search ix q k = Inr []"

text \<open>
  The store after \<^verbatim>\<open>add_company_data("aapl", ...)\<close> on an empty store of dimension 2, with a
  provider that returns one embedding.
\<close>

definition lower_case_db :: vector_db where
  "lower_case_db =
     fst (snd (add_company_data no_format (\<lambda>texts. Some [[1, 0]]) ''2024-01-01''
                 (empty_db 2) [] ''aapl'' apple_data))"

section \<open>News deduplication: proofs\<close>


lemma split_ws_nonempty:
  "cur \<noteq> [] \<or> (\<exists>c\<in>set s. \<not> py_isspace c) \<Longrightarrow> split_ws cur s \<noteq> []"
  by (induction s arbitrary: cur) auto

lemma py_strip_has_word:
  assumes "py_strip x \<noteq> []"
  shows "\<exists>c\<in>set (py_strip x). \<not> py_isspace c"
proof -
  let ?y = "dropWhile py_isspace (rev (dropWhile py_isspace x))"
  from assms have ne: "?y \<noteq> []" by (simp add: py_strip_def)
  then have "\<not> py_isspace (hd ?y)" by (rule hd_dropWhile)
  moreover from ne have "hd ?y \<in> set ?y" by simp
  ultimately show ?thesis unfolding py_strip_def by (metis set_rev)
qed

lemma normalized_title_words:
  "normalized_title a \<noteq> [] \<Longrightarrow> py_split (normalized_title a) \<noteq> []"
  unfolding normalized_title_def py_split_def
  using py_strip_has_word split_ws_nonempty by blast

lemma word_overlap_Inr:
  assumes "py_split t \<noteq> []"
  shows "word_overlap t s = Inr (of_nat (card (set (py_split t) \<inter> set (py_split s)))
           / of_nat (max (card (set (py_split t))) (card (set (py_split s)))))"
proof -
  from assms have "card (set (py_split t)) \<noteq> 0" by simp
  then have "max (card (set (py_split t))) (card (set (py_split s))) \<noteq> 0" by arith
  then show ?thesis unfolding word_overlap_def Let_def by (simp only: if_False)
qed

lemma is_duplicate_Inr:
  "py_split t \<noteq> [] \<Longrightarrow> is_duplicate t seen = Inr (\<exists>s\<in>set seen. similar_titles t s)"
  by (induction seen) (auto simp: word_overlap_Inr similar_titles_def)

lemma dedup_loop_kept:
  "set seen = normalized_title ` set u \<Longrightarrow> dedup_loop u seen xs = Inr (kept u xs)"
proof (induction xs arbitrary: u seen)
  case Nil
  then show ?case by simp
next
  case (Cons a xs)
  show ?case
  proof (cases "normalized_title a = []")
    case True
    with Cons show ?thesis by simp
  next
    case False
    then have w: "py_split (normalized_title a) \<noteq> []" by (rule normalized_title_words)
    have dup: "is_duplicate (normalized_title a) seen
      = Inr (\<exists>b\<in>set u. similar_titles (normalized_title a) (normalized_title b))"
      using is_duplicate_Inr [OF w, of seen] Cons.prems by auto
    show ?thesis
    proof (cases "\<exists>b\<in>set u. similar_titles (normalized_title a) (normalized_title b)")
      case True
      with False dup Cons show ?thesis by simp
    next
      case nd: False
      have "set (List.insert (normalized_title a) seen) = normalized_title ` set (u @ [a])"
        using Cons.prems by auto
      from Cons.IH [OF this] False dup nd show ?thesis by simp
    qed
  qed
qed

lemma kept_snoc:
  "kept u (xs @ [a]) =
     (if normalized_title a = [] \<or>
         (\<exists>b\<in>set (kept u xs). similar_titles (normalized_title a) (normalized_title b))
      then kept u xs else kept u xs @ [a])"
  by (induction xs arbitrary: u) auto

lemma kept_subseq: "\<exists>zs. kept u xs = u @ zs \<and> subseq zs xs"
proof (induction xs arbitrary: u)
  case Nil
  then show ?case by simp
next
  case (Cons a xs)
  show ?case
  proof (cases "normalized_title a = [] \<or>
         (\<exists>b\<in>set u. similar_titles (normalized_title a) (normalized_title b))")
    case True
    from Cons.IH [of u] obtain zs where "kept u xs = u @ zs" "subseq zs xs" by blast
    with True show ?thesis by (auto intro: subseq_Cons')
  next
    case False
    from Cons.IH [of "u @ [a]"] obtain zs where "kept (u @ [a]) xs = (u @ [a]) @ zs" "subseq zs xs"
      by blast
    with False show ?thesis by (intro exI [of _ "a # zs"]) auto
  qed
qed

lemma kept_idem: "kept [] (kept [] xs) = kept [] xs"
proof (induction xs rule: rev_induct)
  case Nil
  then show ?case by simp
next
  case (snoc a xs)
  show ?case
  proof (cases "normalized_title a = [] \<or>
         (\<exists>b\<in>set (kept [] xs). similar_titles (normalized_title a) (normalized_title b))")
    case True
    then have "kept [] (xs @ [a]) = kept [] xs" by (simp add: kept_snoc)
    with snoc show ?thesis by simp
  next
    case False
    then have e: "kept [] (xs @ [a]) = kept [] xs @ [a]" by (simp add: kept_snoc)
    have "kept [] (kept [] xs @ [a]) = kept [] xs @ [a]"
      using False snoc by (simp add: kept_snoc)
    with e show ?thesis by simp
  qed
qed

lemma deduplicate_news_kept: "deduplicate_news xs = Inr (kept [] xs)"
  unfolding deduplicate_news_def by (rule dedup_loop_kept) simp




text \<open>
  C9. Deduplication is idempotent, and its output is a subsequence of its input: for every
  list of articles the function returns a list, returns that list unchanged when applied to
  it again, and the list is obtained from the input by deleting articles.
\<close>

theorem news_dedup_idempotent_subseq:
  "\<exists>ys. deduplicate_news xs = Inr ys \<and> deduplicate_news ys = Inr ys \<and> subseq ys xs"
proof -
  from kept_subseq [of "[]" xs] have "subseq (kept [] xs) xs" by simp
  then show ?thesis
    by (intro exI [of _ "kept [] xs"]) (simp add: deduplicate_news_kept kept_idem)
qed

section \<open>Context selection: proofs\<close>


lemma select_loop_skip:
  "int (tot + length (text_of c)) > m \<Longrightarrow>
   select_loop m sel tot seen (c # cs) = select_loop m sel tot seen cs"
  by (simp add: Let_def)

lemma select_loop_reject:
  "\<not> int (tot + length (text_of c)) > m \<Longrightarrow>
   \<not> score_of c - (if type_of c \<in> seen then 1 / 10 else 0) > 6 / 10 \<Longrightarrow>
   select_loop m sel tot seen (c # cs) = select_loop m sel tot seen cs"
  by (simp add: Let_def)

lemma select_loop_stop:
  "\<not> int (tot + length (text_of c)) > m \<Longrightarrow>
   score_of c - (if type_of c \<in> seen then 1 / 10 else 0) > 6 / 10 \<Longrightarrow>
   length (sel @ [c]) \<ge> 8 \<or> (of_nat (tot + length (text_of c)) :: rat) > of_int m * (8 / 10) \<Longrightarrow>
   select_loop m sel tot seen (c # cs) = sel @ [c]"
  by (simp add: Let_def)

lemma select_loop_accept:
  "\<not> int (tot + length (text_of c)) > m \<Longrightarrow>
   score_of c - (if type_of c \<in> seen then 1 / 10 else 0) > 6 / 10 \<Longrightarrow>
   \<not> (length (sel @ [c]) \<ge> 8 \<or> (of_nat (tot + length (text_of c)) :: rat) > of_int m * (8 / 10)) \<Longrightarrow>
   select_loop m sel tot seen (c # cs)
     = select_loop m (sel @ [c]) (tot + length (text_of c)) (insert (type_of c) seen) cs"
  by (simp add: Let_def)

lemma total_text_length_snoc:
  "total_text_length (sel @ [c]) = total_text_length sel + length (text_of c)"
  by (simp add: total_text_length_def)

lemma select_loop_inv:
  assumes "int (total_text_length sel) \<le> m" "tot = total_text_length sel"
    "length sel < 8" "(of_nat tot :: rat) \<le> of_int m * (8 / 10)"
  shows "select_ok m (select_loop m sel tot seen cs)"
  using assms
proof (induction cs arbitrary: sel tot seen)
  case Nil
  have "total_text_length (butlast sel) \<le> total_text_length sel"
    by (cases sel rule: rev_cases) (simp_all add: total_text_length_def)
  then have "(of_nat (total_text_length (butlast sel)) :: rat) \<le> of_nat (total_text_length sel)"
    by (simp only: of_nat_le_iff)
  with Nil show ?case unfolding select_ok_def by simp
next
  case (Cons c cs)
  let ?len = "length (text_of c)"
  show ?case
  proof (cases "int (tot + ?len) > m")
    case True
    show ?thesis unfolding select_loop_skip [OF True] by (rule Cons.IH [OF Cons.prems])
  next
    case fit: False
    show ?thesis
    proof (cases "score_of c - (if type_of c \<in> seen then 1 / 10 else 0) > 6 / 10")
      case False
      show ?thesis unfolding select_loop_reject [OF fit False] by (rule Cons.IH [OF Cons.prems])
    next
      case acc: True
      have tl: "total_text_length (sel @ [c]) = tot + ?len"
        using Cons.prems(2) by (simp only: total_text_length_snoc)
      have le: "int (total_text_length (sel @ [c])) \<le> m" using fit unfolding tl by linarith
      show ?thesis
      proof (cases "length (sel @ [c]) \<ge> 8 \<or> (of_nat (tot + ?len) :: rat) > of_int m * (8 / 10)")
        case True
        have "length (sel @ [c]) \<le> 8" using Cons.prems(3) by simp
        moreover have "(of_nat (total_text_length (butlast (sel @ [c]))) :: rat) \<le> of_int m * (8 / 10)"
          using Cons.prems(2,4) by (simp only: butlast_snoc)
        ultimately show ?thesis
          unfolding select_loop_stop [OF fit acc True] select_ok_def using le by blast
      next
        case False
        have l: "length (sel @ [c]) < 8" using False by linarith
        have b: "(of_nat (tot + ?len) :: rat) \<le> of_int m * (8 / 10)" using False by linarith
        show ?thesis unfolding select_loop_accept [OF fit acc False]
          by (rule Cons.IH [OF le tl [symmetric] l b])
      qed
    qed
  qed
qed

lemma select_best_context_ok:
  assumes "0 \<le> m"
  shows "select_ok m (select_best_context cs q m)"
proof (cases "cs = []")
  case True
  with assms show ?thesis by (simp add: select_best_context_def select_ok_def total_text_length_def)
next
  case False
  have "int (total_text_length []) \<le> m" "(0::nat) = total_text_length []" "length ([]::chunk list) < 8"
    "(of_nat 0 :: rat) \<le> of_int m * (8 / 10)"
    using assms by (simp_all add: total_text_length_def)
  from select_loop_inv [OF this] False show ?thesis by (simp add: select_best_context_def)
qed

lemma total_text_length_const:
  "\<forall>c\<in>set cs. length (text_of c) = n \<Longrightarrow> total_text_length cs = n * length cs"
  by (induction cs) (simp_all add: total_text_length_def)

lemma select_loop_subset:
  "set (select_loop m sel tot seen cs) \<subseteq> set sel \<union> set cs"
proof (induction cs arbitrary: sel tot seen)
  case Nil
  show ?case by simp
next
  case (Cons c cs)
  consider (a) "select_loop m sel tot seen (c # cs) = select_loop m sel tot seen cs"
    | (b) "select_loop m sel tot seen (c # cs) = sel @ [c]"
    | (d) "select_loop m sel tot seen (c # cs)
     = select_loop m (sel @ [c]) (tot + length (text_of c)) (insert (type_of c) seen) cs"
    using select_loop_skip select_loop_reject select_loop_stop select_loop_accept by meson
  then show ?case
  proof cases
    case a
    show ?thesis unfolding a using Cons.IH [of sel tot seen] by auto
  next
    case b
    show ?thesis unfolding b by auto
  next
    case d
    show ?thesis unfolding d
      using Cons.IH [of "sel @ [c]" "tot + length (text_of c)" "insert (type_of c) seen"] by auto
  qed
qed

lemma select_best_context_subset: "set (select_best_context cs q m) \<subseteq> set cs"
  using select_loop_subset [of m "[]" 0 "{}" "sorted_chunks cs"]
  by (auto simp: select_best_context_def sorted_chunks_def)

lemma select_500_2000:
  assumes "\<forall>c\<in>set cs. length (text_of c) = 500"
  shows "length (select_best_context cs q 2000) \<le> 4"
proof -
  let ?r = "select_best_context cs q 2000"
  have "\<forall>c\<in>set ?r. length (text_of c) = 500"
    using assms select_best_context_subset by blast
  then have "total_text_length ?r = 500 * length ?r" by (rule total_text_length_const)
  moreover have "int (total_text_length ?r) \<le> 2000"
    using select_best_context_ok [of 2000 cs q] by (simp add: select_ok_def)
  ultimately show ?thesis by linarith
qed

text \<open>
  C4, as the code has it. For every list of candidate chunks and every budget
  \<open>max_length \<ge> 0\<close>, the cumulative text length of the chunks returned is at most
  \<open>max_length\<close>; at most 8 chunks are returned; and the chunks accepted before the last one
  take at most 80 percent of the budget, so nothing is accepted once 8 chunks are in or more
  than 80 percent is consumed. Candidates of text length 500 each (20 of them, or any
  number) with a budget of 2000 give at most 4 chunks.
\<close>

theorem context_selection_respects_budget:
  "0 \<le> max_length \<Longrightarrow>
     int (total_text_length (select_best_context chunks query max_length)) \<le> max_length
   \<and> length (select_best_context chunks query max_length) \<le> 8
   \<and> (of_nat (total_text_length (butlast (select_best_context chunks query max_length))) :: rat)
        \<le> of_int max_length * (8 / 10)
   \<and> ((\<forall>c\<in>set chunks. length (text_of c) = 500)
        \<longrightarrow> length (select_best_context chunks query 2000) \<le> 4)"
  using select_best_context_ok [of max_length chunks query] select_500_2000 [of chunks query]
  unfolding select_ok_def by blast

theorem context_selection_respects_budget_witness:
  "(0::int) \<le> 2000
   \<and> int (total_text_length (select_best_context (replicate 20 (mk_chunk 500 (9 / 10) ''news_article''))
        ''recent news'' 2000)) \<le> 2000
   \<and> length (select_best_context (replicate 20 (mk_chunk 500 (9 / 10) ''news_article''))
        ''recent news'' 2000) \<le> 4"
proof -
  have "\<forall>c\<in>set (replicate 20 (mk_chunk 500 (9 / 10) ''news_article'')). length (text_of c) = 500"
    by (simp add: mk_chunk_def text_of_def)
  with context_selection_respects_budget
    [of 2000 "replicate 20 (mk_chunk 500 (9 / 10) ''news_article'')" "''recent news''"]
  show ?thesis by simp
qed

text \<open>
  With a negative budget nothing is selected, and the empty selection, of length 0, is
  above the budget: the bound of C4 does not hold for every integer budget.
\<close>

theorem context_selection_negative_budget:
  "\<not> int (total_text_length (select_best_context [] ''recent news'' (- 1))) \<le> - 1"
  by (simp add: select_best_context_def total_text_length_def)

section \<open>Symbol extraction: what the patterns return\<close>

text \<open>
  C3. The claim reads: extraction on "What's $AAPL worth today?" yields "AAPL", extraction on
  "Tell me about the market" yields no symbol from pattern matching, and common English
  words are excluded by a stop-list. The function matches its patterns against the
  upper-cased query and has no stop-list, so its first pattern matches the first word of one
  to five letters: it returns "WHAT" for the first query, "TELL" for the second and "THE" for
  "the market today", whatever the company search would answer.
\<close>

theorem symbol_extraction_returns_first_short_word:
  "extract_symbol_from_query search_company ''What's $AAPL worth today?'' = Inr (Some ''WHAT'')
   \<and> extract_symbol_from_query search_company ''Tell me about the market'' = Inr (Some ''TELL'')
   \<and> extract_symbol_from_query search_company ''the market today'' = Inr (Some ''THE'')"
  by code_simp

section \<open>The historical summary\<close>





section \<open>The vector index store: adding\<close>


lemma set_alist_update: "set (AList.update k v al) \<subseteq> insert (k, v) (set al)"
  by (induction al) auto

lemma index_get_in_set: "p \<in> set (index_get ci k) \<Longrightarrow> \<exists>ps. (k, ps) \<in> set ci \<and> p \<in> set ps"
proof -
  assume a: "p \<in> set (index_get ci k)"
  then obtain ps where m: "map_of ci k = Some ps" and p: "p \<in> set ps"
    by (cases "map_of ci k") (auto simp: index_get_def)
  from m have "(k, ps) \<in> set ci" by (rule map_of_SomeD)
  with p show ?thesis by blast
qed

lemma positions_below_append:
  assumes "positions_below n ci" "p < n"
  shows "positions_below n (index_append k p ci)"
  unfolding positions_below_def index_append_def
proof (intro ballI, clarify)
  fix k' ps q
  assume a: "(k', ps) \<in> set (AList.update k (index_get ci k @ [p]) ci)" and q: "q \<in> set ps"
  from a set_alist_update have "(k', ps) = (k, index_get ci k @ [p]) \<or> (k', ps) \<in> set ci" by fastforce
  then show "q < n"
  proof
    assume "(k', ps) = (k, index_get ci k @ [p])"
    with q have "q = p \<or> q \<in> set (index_get ci k)" by auto
    then show ?thesis using assms index_get_in_set unfolding positions_below_def by fastforce
  next
    assume "(k', ps) \<in> set ci"
    with q assms(1) show ?thesis unfolding positions_below_def by fastforce
  qed
qed

lemma positions_below_mono: "positions_below n ci \<Longrightarrow> n \<le> m \<Longrightarrow> positions_below m ci"
  unfolding positions_below_def by fastforce

lemma store_documents_lists:
  "documents (store_documents pos docs st) = documents st @ map doc_text docs
   \<and> metadata (store_documents pos docs st) = metadata st @ docs
   \<and> index (store_documents pos docs st) = index st
   \<and> dimension (store_documents pos docs st) = dimension st"
  by (induction docs arbitrary: pos st) simp_all

lemma store_documents_positions:
  "positions_below (length (documents st)) (company_index st) \<Longrightarrow> pos = length (documents st) \<Longrightarrow>
   positions_below (length (documents st) + length docs)
     (company_index (store_documents pos docs st))"
proof (induction docs arbitrary: pos st)
  case Nil
  then show ?case by simp
next
  case (Cons doc docs)
  let ?st = "st\<lparr>documents := documents st @ [doc_text doc], metadata := metadata st @ [doc],
           company_index := index_append (doc_symbol doc) pos (company_index st)\<rparr>"
  have "positions_below (Suc (length (documents st))) (company_index st)"
    using Cons.prems(1) positions_below_mono by fastforce
  then have "positions_below (length (documents ?st)) (company_index ?st)"
    using Cons.prems(2) by (simp add: positions_below_append)
  moreover have "Suc pos = length (documents ?st)" using Cons.prems(2) by simp
  ultimately have "positions_below (length (documents ?st) + length docs)
     (company_index (store_documents (Suc pos) docs ?st))" by (rule Cons.IH)
  then show ?case by simp
qed

lemma store_invariant_iff:
  "store_invariant st \<longleftrightarrow> length (documents st) = length (metadata st)
     \<and> length (metadata st) = length (index st)
     \<and> positions_below (length (documents st)) (company_index st)"
  by (auto simp: store_invariant_def positions_below_def list_all_iff)

lemma add_documents_success:
  assumes "get_embeddings (map doc_text docs) = Some es" "es \<noteq> []"
    "list_all (\<lambda>e. length e = dimension st) es"
  shows "add_documents get_embeddings st calls docs =
     (None, store_documents (length (documents st)) docs
              (st\<lparr>index := index st @ map normalize_L2 es\<rparr>), calls @ [map doc_text docs])"
proof -
  from assms(2) obtain e es' where es: "es = e # es'" by (cases es) auto
  with assms(3) have "length e = dimension st" "list_all (\<lambda>x. length x = length e) es'"
    by (auto simp: list_all_iff)
  with assms(1) es show ?thesis by (simp add: add_documents_def Let_def)
qed

lemma add_documents_unchanged_or_stored:
  "fst (snd (add_documents get_embeddings st calls docs)) = st
   \<or> (\<exists>es. get_embeddings (map doc_text docs) = Some es \<and> es \<noteq> []
        \<and> fst (snd (add_documents get_embeddings st calls docs))
            = store_documents (length (documents st)) docs
                (st\<lparr>index := index st @ map normalize_L2 es\<rparr>))"
  by (auto simp: add_documents_def Let_def split: option.splits list.splits)

lemma stored_invariant:
  assumes "store_invariant st" "length es = length docs"
  shows "store_invariant (store_documents (length (documents st)) docs
                (st\<lparr>index := index st @ map normalize_L2 es\<rparr>))"
proof -
  let ?st1 = "st\<lparr>index := index st @ map normalize_L2 es\<rparr>"
  have "positions_below (length (documents st)) (company_index st)"
    using assms(1) unfolding store_invariant_iff by blast
  then have "positions_below (length (documents ?st1)) (company_index ?st1)" by simp
  from store_documents_positions [OF this refl, of docs]
  have "positions_below (length (documents st) + length docs)
     (company_index (store_documents (length (documents st)) docs ?st1))" by simp
  then show ?thesis
    using assms store_documents_lists [of "length (documents st)" docs ?st1]
    by (simp add: store_invariant_iff)
qed

lemma add_documents_failure:
  "get_embeddings (map doc_text docs) = None \<or> get_embeddings (map doc_text docs) = Some [] \<Longrightarrow>
   add_documents get_embeddings st calls docs = (None, st, calls @ [map doc_text docs])"
  by (auto simp: add_documents_def Let_def)

text \<open>
  C1. Take any store that satisfies the invariant and any batch for which the provider
  returns one embedding per document. The store after \<^verbatim>\<open>_add_documents\<close> satisfies the
  invariant: texts, metadata and index have the same length and every position in the symbol
  index is below the number of documents. When the embeddings have the dimension of the
  index (and the batch is not empty) the call does not raise and the batch is appended.
\<close>

theorem add_documents_keeps_store_invariant:
  assumes "store_invariant st"
    and "get_embeddings (map doc_text docs) = Some es"
    and "length es = length docs"
  shows "store_invariant (fst (snd (add_documents get_embeddings st calls docs)))
       \<and> (es \<noteq> [] \<and> list_all (\<lambda>e. length e = dimension st) es \<longrightarrow>
            (\<exists>st'. add_documents get_embeddings st calls docs
                      = (None, st', calls @ [map doc_text docs])
               \<and> documents st' = documents st @ map doc_text docs
               \<and> metadata st' = metadata st @ docs
               \<and> length (index st') = length (index st) + length docs))"
proof (intro conjI impI)
  from add_documents_unchanged_or_stored [of get_embeddings st calls docs]
  show "store_invariant (fst (snd (add_documents get_embeddings st calls docs)))"
  proof
    assume "fst (snd (add_documents get_embeddings st calls docs)) = st"
    with assms(1) show ?thesis by simp
  next
    assume "\<exists>es. get_embeddings (map doc_text docs) = Some es \<and> es \<noteq> []
        \<and> fst (snd (add_documents get_embeddings st calls docs))
            = store_documents (length (documents st)) docs
                (st\<lparr>index := index st @ map normalize_L2 es\<rparr>)"
    with assms(2) have "fst (snd (add_documents get_embeddings st calls docs))
            = store_documents (length (documents st)) docs
                (st\<lparr>index := index st @ map normalize_L2 es\<rparr>)" by auto
    with stored_invariant [OF assms(1,3)] show ?thesis by simp
  qed
next
  assume a: "es \<noteq> [] \<and> list_all (\<lambda>e. length e = dimension st) es"
  let ?st' = "store_documents (length (documents st)) docs
                (st\<lparr>index := index st @ map normalize_L2 es\<rparr>)"
  from a add_documents_success [of get_embeddings docs es st calls] assms(2)
  have "add_documents get_embeddings st calls docs = (None, ?st', calls @ [map doc_text docs])"
    by blast
  moreover have "documents ?st' = documents st @ map doc_text docs"
    "metadata ?st' = metadata st @ docs"
    "length (index ?st') = length (index st) + length docs"
    using assms(3) by (simp_all add: store_documents_lists)
  ultimately show "\<exists>st'. add_documents get_embeddings st calls docs
                      = (None, st', calls @ [map doc_text docs])
               \<and> documents st' = documents st @ map doc_text docs
               \<and> metadata st' = metadata st @ docs
               \<and> length (index st') = length (index st) + length docs" by blast
qed

theorem add_documents_keeps_store_invariant_witness:
  "store_invariant (empty_db 2)
   \<and> store_invariant (fst (snd (add_documents (\<lambda>texts. Some [[3, 4]]) (empty_db 2) []
        [mk_doc ''Company: Apple (AAPL)'' ''company_overview'' ''AAPL'' ''2024-01-01''])))"
proof -
  have i: "store_invariant (empty_db 2)" by (simp add: store_invariant_def empty_db_def)
  from add_documents_keeps_store_invariant [OF i, of "\<lambda>texts. Some [[3, 4]]"
      "[mk_doc ''Company: Apple (AAPL)'' ''company_overview'' ''AAPL'' ''2024-01-01'']"
      "[[3, 4]]" "[]"]
  show ?thesis using i by simp
qed

lemma add_company_data_embedding_failure:
  assumes "documents_to_add nf now symbol cd = Inr docs" "docs \<noteq> []"
    and "get_embeddings (map doc_text docs) = None \<or> get_embeddings (map doc_text docs) = Some []"
  shows "add_company_data nf get_embeddings now st calls symbol cd
           = (True, st, calls @ [map doc_text docs])"
  using assms(1,2) add_documents_failure [of get_embeddings docs st calls] assms(3)
  by (simp add: add_company_data_def)

lemma documents_to_add_apple:
  "documents_to_add nf now ''AAPL'' apple_data
     = Inr [mk_doc ''Company: Apple (AAPL)'' ''company_overview'' ''AAPL'' now]"
  by (simp add: documents_to_add_def apple_data_def format_company_overview_def
      str_part_def num_part_def)

text \<open>
  C2. When the provider returns no embeddings for the batch, \<^verbatim>\<open>_add_documents\<close> logs an error
  and returns with the store as it was, and \<^verbatim>\<open>add_company_data\<close> goes on to return \<open>True\<close>:
  nothing of the batch is ingested, and the caller is told the add succeeded. Here for a
  record with a company overview, on an empty store.
\<close>

theorem add_company_data_reports_success_without_embeddings:
  "add_company_data nf (\<lambda>texts. None) now (empty_db 1536) [] ''AAPL'' apple_data
     = (True, empty_db 1536, [[''Company: Apple (AAPL)'']])"
  using add_company_data_embedding_failure [of nf now "''AAPL''" apple_data
      "[mk_doc ''Company: Apple (AAPL)'' ''company_overview'' ''AAPL'' now]" "\<lambda>texts. None"
      "empty_db 1536" "[]"] documents_to_add_apple [of nf now]
  by (simp add: mk_doc_def)

text \<open>
  C10. When none of the five categories of the record has a true value,
  \<^verbatim>\<open>add_company_data\<close> returns \<open>False\<close>, the store (texts, metadata, symbol index, vector
  index) is the one it was given, and the log of embedding calls has not grown.
\<close>

theorem add_company_data_without_categories:
  assumes "cd_company cd = None" "cd_financial cd = None" "cd_historical cd = None"
    and "cd_news cd = None \<or> cd_news cd = Some []" and "cd_analyst cd = None"
  shows "add_company_data nf get_embeddings now st calls symbol cd = (False, st, calls)"
  using assms by (auto simp: add_company_data_def documents_to_add_def)

theorem add_company_data_without_categories_witness:
  "add_company_data no_format (\<lambda>texts. None) ''2024-01-01'' (empty_db 1536) [] ''AAPL'' no_data
     = (False, empty_db 1536, [])"
  by (rule add_company_data_without_categories) (simp_all add: no_data_def)

section \<open>Multi-source data fusion: proofs\<close>

lemma add_source_mem: "s = Some x \<Longrightarrow> x \<in> set (add_source s used)"
  by (simp add: add_source_def)

lemma add_source_mono: "x \<in> set used \<Longrightarrow> x \<in> set (add_source s used)"
  by (simp add: add_source_def split: option.splits)

lemma aggregate_quote_source:
  "quote_data = Inr (Some q) \<Longrightarrow> source q = Some s \<Longrightarrow>
   s \<in> set (sources_used (aggregate symbol now quote_data rc rh rf rn ra))"
  by (simp add: aggregate_def Let_def not_exception_def add_source_mono add_source_mem)

lemma aggregate_exceptions:
  "cs_quote (aggregate symbol now (Inl e) rc rh rf rn ra) = None"
  "cs_company (aggregate symbol now rq (Inl e) rh rf rn ra) = None"
  "cs_historical (aggregate symbol now rq rc (Inl e) rf rn ra) = None"
  "cs_financial (aggregate symbol now rq rc rh (Inl e) rn ra) = None"
  "cs_news (aggregate symbol now rq rc rh rf (Inl e) ra) = None"
  "cs_analyst (aggregate symbol now rq rc rh rf rn (Inl e)) = None"
  by (simp_all add: aggregate_def Let_def not_exception_def)

lemma comprehensive_fields:
  "cs_quote (get_comprehensive_stock_data now c symbol) = get_quote_data c"
  "cs_company (get_comprehensive_stock_data now c symbol) = get_company_data c"
  "cs_historical (get_comprehensive_stock_data now c symbol) = get_historical_data c"
  "cs_financial (get_comprehensive_stock_data now c symbol) = get_financial_data c"
  "cs_analyst (get_comprehensive_stock_data now c symbol) = get_analyst_data c"
  "cs_news (get_comprehensive_stock_data now c symbol) = not_exception (get_news_data c)"
  by (simp_all add: get_comprehensive_stock_data_def aggregate_def Let_def not_exception_def)

lemma first_success_failed: "failed r \<Longrightarrow> first_success (r # rest) = first_success rest"
  by (cases r) (simp_all add: failed_def)

lemma attempt_raised: "raised r \<Longrightarrow> attempt r = None"
  by (cases r) (simp_all add: raised_def attempt_def)

lemma raised_failed: "raised r \<Longrightarrow> failed r"
  by (cases r) (simp_all add: raised_def failed_def)

lemma news_list_raised: "raised r \<Longrightarrow> news_list r = []"
  by (cases r) (simp_all add: raised_def news_list_def)

lemma quote_fallback:
  assumes "failed (yf_get_quote c)" "av_get_quote c = Success q"
  shows "cs_quote (get_comprehensive_stock_data now c symbol) = Some q
       \<and> (source q = Some s \<longrightarrow> s \<in> set (sources_used (get_comprehensive_stock_data now c symbol)))"
proof -
  from assms have g: "get_quote_data c = Some q"
    by (simp add: get_quote_data_def first_success_failed)
  then show ?thesis
    unfolding get_comprehensive_stock_data_def
    by (simp add: aggregate_quote_source) (simp add: aggregate_def Let_def not_exception_def)
qed

lemma raised_categories:
  "raised (yf_get_quote c) \<and> raised (av_get_quote c) \<and> raised (fmp_get_quote c)
     \<Longrightarrow> cs_quote (get_comprehensive_stock_data now c symbol) = None"
  "raised (av_get_company_overview c) \<and> raised (yf_get_company_info c)
     \<and> raised (fmp_get_company_profile c)
     \<Longrightarrow> cs_company (get_comprehensive_stock_data now c symbol) = None"
  "raised (yf_get_daily_data c) \<and> raised (av_get_daily_data c) \<and> raised (fmp_get_daily_data c)
     \<Longrightarrow> cs_historical (get_comprehensive_stock_data now c symbol) = None"
  "raised (fmp_get_key_metrics c) \<and> raised (fmp_get_financial_ratios c)
     \<and> raised (yf_get_financial_data c) \<and> raised (av_get_earnings c)
     \<Longrightarrow> cs_financial (get_comprehensive_stock_data now c symbol) = None"
  "raised (yf_get_news c) \<and> raised (fmp_get_stock_news c)
     \<Longrightarrow> cs_news (get_comprehensive_stock_data now c symbol) = None"
  "raised (yf_get_analyst_recommendations c) \<and> raised (fmp_get_analyst_estimates c)
     \<and> raised (yf_get_earnings_calendar c)
     \<Longrightarrow> cs_analyst (get_comprehensive_stock_data now c symbol) = None"
  by (simp_all add: comprehensive_fields get_quote_data_def get_company_data_def
      get_historical_data_def get_financial_data_def get_news_data_def get_analyst_data_def
      get_earnings_calendar_def first_success_failed raised_failed attempt_raised
      news_list_raised not_exception_def Let_def)
     (simp add: raised_def split: outcome.splits)

text \<open>
  C7. The comprehensive fetch is a total function of the symbol and of what every collector
  call does: no assignment of outcomes makes it raise. A task result that is an exception
  becomes an absent category of the record, and so does a category all of whose collector
  calls raise. When the preferred quote collector (Yahoo) raises or returns nothing and
  Alpha Vantage returns a quote, the record holds that quote and \<open>sources_used\<close> holds the
  source the quote names.
\<close>

theorem comprehensive_fetch_isolates_failures:
  "cs_quote (aggregate symbol now (Inl e) rc rh rf rn ra) = None
   \<and> cs_company (aggregate symbol now rq (Inl e) rh rf rn ra) = None
   \<and> cs_historical (aggregate symbol now rq rc (Inl e) rf rn ra) = None
   \<and> cs_financial (aggregate symbol now rq rc rh (Inl e) rn ra) = None
   \<and> cs_news (aggregate symbol now rq rc rh rf (Inl e) ra) = None
   \<and> cs_analyst (aggregate symbol now rq rc rh rf rn (Inl e)) = None
   \<and> (raised (yf_get_quote c) \<and> raised (av_get_quote c) \<and> raised (fmp_get_quote c)
        \<longrightarrow> cs_quote (get_comprehensive_stock_data now c symbol) = None)
   \<and> (raised (av_get_company_overview c) \<and> raised (yf_get_company_info c)
        \<and> raised (fmp_get_company_profile c)
        \<longrightarrow> cs_company (get_comprehensive_stock_data now c symbol) = None)
   \<and> (raised (yf_get_daily_data c) \<and> raised (av_get_daily_data c) \<and> raised (fmp_get_daily_data c)
        \<longrightarrow> cs_historical (get_comprehensive_stock_data now c symbol) = None)
   \<and> (raised (fmp_get_key_metrics c) \<and> raised (fmp_get_financial_ratios c)
        \<and> raised (yf_get_financial_data c) \<and> raised (av_get_earnings c)
        \<longrightarrow> cs_financial (get_comprehensive_stock_data now c symbol) = None)
   \<and> (raised (yf_get_news c) \<and> raised (fmp_get_stock_news c)
        \<longrightarrow> cs_news (get_comprehensive_stock_data now c symbol) = None)
   \<and> (raised (yf_get_analyst_recommendations c) \<and> raised (fmp_get_analyst_estimates c)
        \<and> raised (yf_get_earnings_calendar c)
        \<longrightarrow> cs_analyst (get_comprehensive_stock_data now c symbol) = None)
   \<and> (failed (yf_get_quote c) \<and> av_get_quote c = Success q
        \<longrightarrow> cs_quote (get_comprehensive_stock_data now c symbol) = Some q
            \<and> (source q = Some s
                 \<longrightarrow> s \<in> set (sources_used (get_comprehensive_stock_data now c symbol))))"
proof -
  note exc = aggregate_exceptions [where symbol = symbol and now = now and e = e]
  note rai = raised_categories [where c = c and now = now and symbol = symbol]
  note fall = quote_fallback [where c = c and q = q and now = now and symbol = symbol and s = s]
  show ?thesis
    apply (intro conjI impI)
    apply (rule exc)+
    apply (rule rai, assumption)+
    using fall apply blast
    using fall apply blast
    done
qed

theorem comprehensive_fetch_isolates_failures_witness:
  "failed (yf_get_quote yahoo_quote_down)
   \<and> cs_quote (get_comprehensive_stock_data ''2024-01-01'' yahoo_quote_down ''aapl'')
       = Some \<lparr>source = Some ''alpha_vantage'', payload = ()\<rparr>
   \<and> ''alpha_vantage''
       \<in> set (sources_used (get_comprehensive_stock_data ''2024-01-01'' yahoo_quote_down ''aapl''))"
proof -
  have f: "failed (yf_get_quote yahoo_quote_down)"
    and a: "av_get_quote yahoo_quote_down = Success \<lparr>source = Some ''alpha_vantage'', payload = ()\<rparr>"
    by (simp_all add: yahoo_quote_down_def failed_def)
  from comprehensive_fetch_isolates_failures [of "''aapl''" "''2024-01-01''" RuntimeError
      "Inr None" "Inr None" "Inr None" "Inr None" "Inr None" "Inr None" yahoo_quote_down
      "\<lparr>source = Some ''alpha_vantage'', payload = ()\<rparr>" "''alpha_vantage''"]
  have "failed (yf_get_quote yahoo_quote_down)
        \<and> av_get_quote yahoo_quote_down = Success \<lparr>source = Some ''alpha_vantage'', payload = ()\<rparr>
      \<longrightarrow> cs_quote (get_comprehensive_stock_data ''2024-01-01'' yahoo_quote_down ''aapl'')
            = Some \<lparr>source = Some ''alpha_vantage'', payload = ()\<rparr>
        \<and> (source \<lparr>source = Some ''alpha_vantage'', payload = ()\<rparr> = Some ''alpha_vantage''
             \<longrightarrow> ''alpha_vantage''
       \<in> set (sources_used (get_comprehensive_stock_data ''2024-01-01'' yahoo_quote_down ''aapl'')))"
    by blast
  moreover have "source \<lparr>source = Some ''alpha_vantage'', payload = ()\<rparr> = Some ''alpha_vantage''"
    by simp
  ultimately show ?thesis using f a by blast
qed

section \<open>The vector index store: removing\<close>

lemma index_get_append_same: "index_get (index_append k p ci) k = index_get ci k @ [p]"
  by (simp add: index_get_def index_append_def update_conv')

lemma index_get_append_other: "k' \<noteq> k \<Longrightarrow> index_get (index_append k p ci) k' = index_get ci k'"
  by (simp add: index_get_def index_append_def update_conv')

lemma keys_index_append: "fst ` set (index_append k p ci) = insert k (fst ` set ci)"
proof -
  have "set (map fst (index_append k p ci)) = insert k (set (map fst ci))"
    unfolding index_append_def update_keys by auto
  then show ?thesis by (simp only: set_map)
qed

lemma distinct_index_append: "distinct (map fst ci) \<Longrightarrow> distinct (map fst (index_append k p ci))"
  by (simp add: index_append_def distinct_update)

lemma nonempty_index_append:
  assumes "list_all (\<lambda>(k, ps). ps \<noteq> []) ci"
  shows "list_all (\<lambda>(k, ps). ps \<noteq> []) (index_append k p ci)"
  unfolding list_all_iff
proof (intro ballI)
  fix x assume "x \<in> set (index_append k p ci)"
  with set_alist_update have "x = (k, index_get ci k @ [p]) \<or> x \<in> set ci"
    unfolding index_append_def by fastforce
  then show "case x of (k, ps) \<Rightarrow> ps \<noteq> []"
    using assms by (auto simp: list_all_iff)
qed

lemma build_index_get:
  "index_get (build_index pos ms ci) k = index_get ci k @ positions_from pos k ms"
  by (induction ms arbitrary: pos ci)
     (simp_all add: index_get_append_same index_get_append_other)

lemma build_index_keys:
  "fst ` set (build_index pos ms ci) = fst ` set ci \<union> key ` set ms"
  by (induction ms arbitrary: pos ci) (auto simp: keys_index_append)

lemma build_index_distinct:
  "distinct (map fst ci) \<Longrightarrow> distinct (map fst (build_index pos ms ci))"
  by (induction ms arbitrary: pos ci) (simp_all add: distinct_index_append)

lemma build_index_nonempty:
  "list_all (\<lambda>(k, ps). ps \<noteq> []) ci \<Longrightarrow> list_all (\<lambda>(k, ps). ps \<noteq> []) (build_index pos ms ci)"
  by (induction ms arbitrary: pos ci) (simp_all add: nonempty_index_append)

lemma remove_loop_eq:
  "remove_loop indices i zs (rd, rm, ci) =
     (rd @ map fst (keep_from indices i zs), rm @ map snd (keep_from indices i zs),
      build_index (length rd) (map snd (keep_from indices i zs)) ci)"
proof (induction zs arbitrary: i rd rm ci)
  case Nil
  show ?case by simp
next
  case (Cons z zs)
  obtain d m where z: "z = (d, m)" by (cases z)
  show ?case unfolding z by (simp add: Cons.IH)
qed

lemma keep_from_filter:
  "(\<And>j. j < length zs \<Longrightarrow> (i + j \<in> set indices \<longleftrightarrow> \<not> P (zs ! j))) \<Longrightarrow>
   keep_from indices i zs = filter P zs"
proof (induction zs arbitrary: i)
  case Nil
  show ?case by simp
next
  case (Cons z zs)
  have h: "i \<in> set indices \<longleftrightarrow> \<not> P z" using Cons.prems [of 0] by simp
  have "\<And>j. j < length zs \<Longrightarrow> (Suc i + j \<in> set indices \<longleftrightarrow> \<not> P (zs ! j))"
    using Cons.prems [of "Suc j" for j] by simp
  then have "keep_from indices (Suc i) zs = filter P zs" by (rule Cons.IH)
  with h show ?case by simp
qed

lemma positions_from_ge: "x \<in> set (positions_from pos k ms) \<Longrightarrow> pos \<le> x"
proof (induction ms arbitrary: pos)
  case Nil
  then show ?case by simp
next
  case (Cons m ms)
  from Cons.prems have "x = pos \<or> x \<in> set (positions_from (Suc pos) k ms)"
    by (simp split: if_splits)
  then show ?case using Cons.IH [of "Suc pos"] by fastforce
qed

lemma positions_from_mem:
  "j < length ms \<Longrightarrow> (pos + j \<in> set (positions_from pos k ms) \<longleftrightarrow> key (ms ! j) = k)"
proof (induction ms arbitrary: pos j)
  case Nil
  then show ?case by simp
next
  case (Cons m ms)
  have notin: "pos \<notin> set (positions_from (Suc pos) k ms)"
    using positions_from_ge [of pos "Suc pos" k ms] by fastforce
  show ?case
  proof (cases j)
    case 0
    with notin show ?thesis by simp
  next
    case (Suc j')
    with Cons.prems have "j' < length ms" by simp
    from Cons.IH [OF this, of "Suc pos"] Suc show ?thesis by simp
  qed
qed

lemma positions_from_empty: "positions_from pos k ms = [] \<longleftrightarrow> k \<notin> key ` set ms"
  by (induction ms arbitrary: pos) auto

lemma index_get_Nil: "index_get [] k = []"
  by (simp add: index_get_def)

lemma positions_from_filter:
  "positions_from pos k (filter (\<lambda>m. key m \<noteq> k) ms) = []"
  unfolding positions_from_empty by auto

lemma consistent_index_get:
  assumes "index_consistent st"
  shows "index_get (company_index st) k = positions_from 0 k (metadata st)"
proof (cases "map_of (company_index st) k")
  case None
  then have "k \<notin> fst ` set (company_index st)" by (simp add: map_of_eq_None_iff)
  moreover have "\<forall>m\<in>set (metadata st). key m \<in> fst ` set (company_index st)"
    using assms by (simp add: index_consistent_def list_all_iff)
  ultimately have "k \<notin> key ` set (metadata st)" by blast
  then have "positions_from 0 k (metadata st) = []" using positions_from_empty by blast
  with None show ?thesis by (simp add: index_get_def)
next
  case (Some ps)
  then have "(k, ps) \<in> set (company_index st)" by (rule map_of_SomeD)
  moreover have "\<forall>(k, ps)\<in>set (company_index st). ps \<noteq> [] \<and> ps = positions_from 0 k (metadata st)"
    using assms by (simp add: index_consistent_def list_all_iff)
  ultimately have "ps = positions_from 0 k (metadata st)" by blast
  with Some show ?thesis by (simp add: index_get_def)
qed

lemma snd_filter_zip:
  "length ds = length ms \<Longrightarrow>
   map snd (filter (\<lambda>(d, m). P m) (zip ds ms)) = filter P ms"
  by (induction ds ms rule: list_induct2) simp_all

lemma keep_from_symbol:
  assumes "length ds = length ms"
  shows "keep_from (positions_from 0 S ms) 0 (zip ds ms)
           = filter (\<lambda>(d, m). key m \<noteq> S) (zip ds ms)"
proof (rule keep_from_filter)
  fix j assume "j < length (zip ds ms)"
  then have j: "j < length ms" "j < length ds" by simp_all
  then have "zip ds ms ! j = (ds ! j, ms ! j)" by simp
  moreover have "0 + j \<in> set (positions_from 0 S ms) \<longleftrightarrow> key (ms ! j) = S"
    using j(1) by (rule positions_from_mem)
  ultimately show "0 + j \<in> set (positions_from 0 S ms)
      \<longleftrightarrow> \<not> (case zip ds ms ! j of (d, m) \<Rightarrow> key m \<noteq> S)" by simp
qed

lemma remove_company_data_eq:
  assumes "index_consistent st" "index_get (company_index st) (py_upper symbol) \<noteq> []"
  shows "remove_company_data loop_running st symbol =
     (if filter (\<lambda>m. key m \<noteq> py_upper symbol) (metadata st) \<noteq> []
      then (loop_running, purged st (py_upper symbol))
      else (True, create_new_index (purged st (py_upper symbol))))"
proof -
  let ?S = "py_upper symbol"
  let ?zs = "filter (\<lambda>(d, m). key m \<noteq> ?S) (zip (documents st) (metadata st))"
  let ?rm = "filter (\<lambda>m. key m \<noteq> ?S) (metadata st)"
  have len: "length (documents st) = length (metadata st)"
    using assms(1) by (simp add: index_consistent_def)
  have ig: "index_get (company_index st) ?S = positions_from 0 ?S (metadata st)"
    using assms(1) by (rule consistent_index_get)
  have snd: "map snd ?zs = ?rm" using len by (rule snd_filter_zip)
  have loop: "remove_loop (index_get (company_index st) ?S) 0 (zip (documents st) (metadata st))
                ([], [], []) = (map fst ?zs, ?rm, build_index 0 ?rm [])"
    unfolding ig remove_loop_eq keep_from_symbol [OF len] snd by simp
  from assms(2) ig have "?S \<in> key ` set (metadata st)"
    using positions_from_empty [of 0 ?S "metadata st"] by simp
  then obtain m0 where "m0 \<in> set (metadata st)" "\<not> key m0 \<noteq> ?S" by auto
  then have "length ?rm < length (metadata st)" by (rule length_filter_less)
  moreover have "length (map fst ?zs) = length ?rm" using snd [symmetric] by simp
  ultimately have less: "length (map fst ?zs) < length (documents st)" using len by simp
  have ne: "map fst ?zs \<noteq> [] \<longleftrightarrow> ?rm \<noteq> []" using snd [symmetric] by simp
  show ?thesis
    unfolding remove_company_data_def Let_def loop purged_def
    using assms(2) less ne by simp
qed

lemma purged_consistent:
  assumes "length (documents st) = length (metadata st)"
  shows "index_consistent (purged st S)"
proof -
  let ?rm = "filter (\<lambda>m. key m \<noteq> S) (metadata st)"
  let ?nci = "build_index 0 ?rm []"
  have d: "distinct (map fst ?nci)" by (rule build_index_distinct) simp
  have n: "list_all (\<lambda>(k, ps). ps \<noteq> []) ?nci" by (rule build_index_nonempty) simp
  have g: "\<And>k. index_get ?nci k = positions_from 0 k ?rm"
    unfolding build_index_get index_get_Nil by simp
  have e: "list_all (\<lambda>(k, ps). ps \<noteq> [] \<and> ps = positions_from 0 k ?rm) ?nci"
    unfolding list_all_iff
  proof (intro ballI, clarify)
    fix k ps assume in_set: "(k, ps) \<in> set ?nci"
    with d have "map_of ?nci k = Some ps" by simp
    then have "index_get ?nci k = ps" by (simp add: index_get_def)
    with g [of k] have "ps = positions_from 0 k ?rm" by simp
    moreover from n in_set have "ps \<noteq> []" by (auto simp: list_all_iff)
    ultimately show "ps \<noteq> [] \<and> ps = positions_from 0 k ?rm" by simp
  qed
  have k: "list_all (\<lambda>m. key m \<in> set (map fst ?nci)) ?rm"
    unfolding list_all_iff set_map build_index_keys by simp
  have l: "length (map fst (filter (\<lambda>(d, m). key m \<noteq> S) (zip (documents st) (metadata st))))
      = length ?rm"
    using snd_filter_zip [OF assms, of "\<lambda>m. key m \<noteq> S"]
    by (metis length_map)
  show ?thesis
    unfolding index_consistent_def purged_def using d e k l by simp
qed

lemma create_new_index_consistent: "index_consistent (create_new_index st)"
  by (simp add: index_consistent_def create_new_index_def)

lemma search_unknown_symbol:
  "index_get (company_index st) (py_upper f) = [] \<Longrightarrow> f \<noteq> [] \<Longrightarrow>
   search get_embeddings knn index_search st query k (Some f) = []"
  by (simp add: search_def Let_def split: option.splits list.splits)

lemma purged_index_get:
  "index_get (company_index (purged st S)) S = []"
  by (simp add: purged_def build_index_get positions_from_filter index_get_Nil)

lemma two_symbols_left_one:
  assumes "index_consistent st" "length (company_index st) = 2"
    "index_get (company_index st) S \<noteq> []"
  shows "filter (\<lambda>m. key m \<noteq> S) (metadata st) \<noteq> []
       \<and> length (company_index (purged st S)) = 1"
proof -
  let ?rm = "filter (\<lambda>m. key m \<noteq> S) (metadata st)"
  from assms(2) obtain e1 e2 where ci: "company_index st = [e1, e2]"
    by (cases "company_index st"; cases "tl (company_index st)") auto
  obtain k1 p1 k2 p2 where e: "e1 = (k1, p1)" "e2 = (k2, p2)" by (cases e1; cases e2) auto
  have dist: "k1 \<noteq> k2" using assms(1) ci e by (simp add: index_consistent_def)
  have "list_all (\<lambda>(k, ps). ps \<noteq> [] \<and> ps = positions_from 0 k (metadata st)) [(k1, p1), (k2, p2)]"
    using assms(1) unfolding index_consistent_def ci e by blast
  then have ents: "p1 \<noteq> []" "p1 = positions_from 0 k1 (metadata st)"
    "p2 \<noteq> []" "p2 = positions_from 0 k2 (metadata st)"
    by auto
  have keys: "\<forall>m\<in>set (metadata st). key m = k1 \<or> key m = k2"
    using assms(1) ci e by (simp add: index_consistent_def list_all_iff)
  have S: "S = k1 \<or> S = k2"
    using assms(3) ci e by (auto simp: index_get_def split: if_splits)
  define k' where "k' = (if S = k1 then k2 else k1)"
  have k': "k' \<noteq> S" "k' \<in> key ` set (metadata st)"
    using S dist ents positions_from_empty [of 0 k1 "metadata st"]
      positions_from_empty [of 0 k2 "metadata st"]
    by (auto simp: k'_def)
  have other: "\<forall>m\<in>set (metadata st). key m \<noteq> S \<longrightarrow> key m = k'"
    using keys S by (auto simp: k'_def)
  have img: "key ` set ?rm = {k'}"
  proof
    show "key ` set ?rm \<subseteq> {k'}" using other by auto
    from k' obtain m where "m \<in> set (metadata st)" "key m = k'" by auto
    with k'(1) have "m \<in> set ?rm" by simp
    with \<open>key m = k'\<close> show "{k'} \<subseteq> key ` set ?rm" by auto
  qed
  have ne: "?rm \<noteq> []"
  proof
    assume a: "?rm = []"
    have "key ` set ?rm = {}" unfolding a by simp
    with img show False by simp
  qed
  have "distinct (map fst (build_index 0 ?rm []))" by (rule build_index_distinct) simp
  then have "length (build_index 0 ?rm []) = card (fst ` set (build_index 0 ?rm []))"
    by (metis distinct_card length_map set_map)
  also have "\<dots> = card {k'}" unfolding build_index_keys using img by simp
  finally have "length (company_index (purged st S)) = 1" by (simp add: purged_def)
  with ne show ?thesis by simp
qed

lemma rebuild_index_get:
  "index_get (company_index st) S = [] \<Longrightarrow>
   index_get (company_index (rebuild_index get_embeddings st)) S = []"
  by (simp add: rebuild_index_def create_new_index_def index_get_Nil
      split: option.splits list.splits)

lemma purged_fields:
  "documents (purged st S)
     = map fst (filter (\<lambda>(d, m). key m \<noteq> S) (zip (documents st) (metadata st)))"
  "metadata (purged st S) = filter (\<lambda>m. key m \<noteq> S) (metadata st)"
  by (simp_all add: purged_def)

lemma purged_all_gone:
  assumes "length (documents st) = length (metadata st)"
    "filter (\<lambda>m. key m \<noteq> S) (metadata st) = []"
  shows "map fst (filter (\<lambda>(d, m). key m \<noteq> S) (zip (documents st) (metadata st))) = []"
proof -
  have "map snd (filter (\<lambda>(d, m). key m \<noteq> S) (zip (documents st) (metadata st))) = []"
    using snd_filter_zip [OF assms(1), of "\<lambda>m. key m \<noteq> S"] assms(2) by simp
  then show ?thesis by simp
qed

text \<open>
  What removal does on a store whose symbol index is keyed by the upper-cased symbols of
  its documents, inside a running event loop (the rebuild is scheduled with
  \<^verbatim>\<open>asyncio.create_task\<close>): it returns \<open>False\<close> and the store unchanged when the index lists
  no document under the upper-cased symbol; otherwise it returns \<open>True\<close>, the texts and
  metadata left are exactly those of the other symbols, in their order, and the symbol
  index is the map built anew over them. On a store of two symbols the statistics then
  count one company, and a search filtered to the removed symbol returns the empty list,
  before and after the scheduled rebuild of the index has run.
\<close>

theorem remove_company_data_purges_symbol:
  assumes "index_consistent st" and "loop_running"
  shows "(index_get (company_index st) (py_upper symbol) = []
            \<longrightarrow> remove_company_data loop_running st symbol = (False, st))
   \<and> (index_get (company_index st) (py_upper symbol) \<noteq> [] \<longrightarrow>
        (\<exists>st'. remove_company_data loop_running st symbol = (True, st')
           \<and> documents st'
               = map fst (filter (\<lambda>(d, m). py_upper (doc_symbol m) \<noteq> py_upper symbol)
                            (zip (documents st) (metadata st)))
           \<and> metadata st'
               = filter (\<lambda>m. py_upper (doc_symbol m) \<noteq> py_upper symbol) (metadata st)
           \<and> index_consistent st'
           \<and> (length (company_index st) = 2 \<and> symbol \<noteq> [] \<longrightarrow>
                total_companies (get_stats st') = 1
                \<and> search get_embeddings knn index_search st' query k (Some symbol) = []
                \<and> search get_embeddings knn index_search (rebuild_index get_embeddings' st')
                     query k (Some symbol) = [])))"
proof (intro conjI impI)
  assume "index_get (company_index st) (py_upper symbol) = []"
  then show "remove_company_data loop_running st symbol = (False, st)"
    by (simp add: remove_company_data_def)
next
  let ?S = "py_upper symbol"
  let ?rm = "filter (\<lambda>m. key m \<noteq> ?S) (metadata st)"
  assume known: "index_get (company_index st) ?S \<noteq> []"
  have len: "length (documents st) = length (metadata st)"
    using assms(1) by (simp add: index_consistent_def)
  note eq = remove_company_data_eq [OF assms(1) known, of loop_running]
  show "\<exists>st'. remove_company_data loop_running st symbol = (True, st')
           \<and> documents st'
               = map fst (filter (\<lambda>(d, m). key m \<noteq> ?S) (zip (documents st) (metadata st)))
           \<and> metadata st' = ?rm
           \<and> index_consistent st'
           \<and> (length (company_index st) = 2 \<and> symbol \<noteq> [] \<longrightarrow>
                total_companies (get_stats st') = 1
                \<and> search get_embeddings knn index_search st' query k (Some symbol) = []
                \<and> search get_embeddings knn index_search (rebuild_index get_embeddings' st')
                     query k (Some symbol) = [])"
  proof (cases "?rm = []")
    case False
    let ?st' = "purged st ?S"
    have r: "remove_company_data loop_running st symbol = (True, ?st')"
      using eq False assms(2) by simp
    have two: "length (company_index st) = 2 \<and> symbol \<noteq> [] \<longrightarrow>
                total_companies (get_stats ?st') = 1
                \<and> search get_embeddings knn index_search ?st' query k (Some symbol) = []
                \<and> search get_embeddings knn index_search (rebuild_index get_embeddings' ?st')
                     query k (Some symbol) = []"
    proof (intro impI, elim conjE)
      assume l: "length (company_index st) = 2" and ne: "symbol \<noteq> []"
      from two_symbols_left_one [OF assms(1) l known]
      have "total_companies (get_stats ?st') = 1" by (simp add: get_stats_def)
      moreover have g: "index_get (company_index ?st') ?S = []" by (rule purged_index_get)
      then have "search get_embeddings knn index_search ?st' query k (Some symbol) = []"
        using ne by (rule search_unknown_symbol)
      moreover have "search get_embeddings knn index_search (rebuild_index get_embeddings' ?st')
                     query k (Some symbol) = []"
        using rebuild_index_get [OF g] ne by (rule search_unknown_symbol)
      ultimately show "total_companies (get_stats ?st') = 1
                \<and> search get_embeddings knn index_search ?st' query k (Some symbol) = []
                \<and> search get_embeddings knn index_search (rebuild_index get_embeddings' ?st')
                     query k (Some symbol) = []" by blast
    qed
    show ?thesis
      using r purged_fields [of st ?S] purged_consistent [OF len, of ?S] two by blast
  next
    case True
    let ?st' = "create_new_index (purged st ?S)"
    have r: "remove_company_data loop_running st symbol = (True, ?st')"
      using eq True by simp
    have d: "documents ?st'
               = map fst (filter (\<lambda>(d, m). key m \<noteq> ?S) (zip (documents st) (metadata st)))"
      using purged_all_gone [OF len True] by (simp add: create_new_index_def)
    have m: "metadata ?st' = ?rm" using True by (simp add: create_new_index_def)
    have two: "length (company_index st) = 2 \<and> symbol \<noteq> [] \<longrightarrow>
                total_companies (get_stats ?st') = 1
                \<and> search get_embeddings knn index_search ?st' query k (Some symbol) = []
                \<and> search get_embeddings knn index_search (rebuild_index get_embeddings' ?st')
                     query k (Some symbol) = []"
      using two_symbols_left_one [OF assms(1) _ known] True by blast
    show ?thesis
      using r d m create_new_index_consistent [of "purged st ?S"] two by blast
  qed
qed

theorem remove_company_data_purges_symbol_witness:
  "index_consistent two_symbol_db
   \<and> index_get (company_index two_symbol_db) (py_upper ''aapl'') \<noteq> []
   \<and> length (company_index two_symbol_db) = 2
   \<and> fst (remove_company_data True two_symbol_db ''aapl'') = True
   \<and> total_companies (get_stats (snd (remove_company_data True two_symbol_db ''aapl''))) = 1
   \<and> search (\<lambda>texts. Some [[1, 0]]) no_knn no_index_search
        (snd (remove_company_data True two_symbol_db ''aapl'')) ''apple news'' 5 (Some ''aapl'') = []"
proof -
  have c: "index_consistent two_symbol_db" by code_simp
  have k: "index_get (company_index two_symbol_db) (py_upper ''aapl'') \<noteq> []" by code_simp
  have l: "length (company_index two_symbol_db) = 2" by (simp add: two_symbol_db_def)
  from remove_company_data_purges_symbol [OF c TrueI, of "''aapl''" "\<lambda>texts. Some [[1, 0]]"
      no_knn no_index_search "''apple news''" 5 "\<lambda>texts. None"] k l
  obtain st' where "remove_company_data True two_symbol_db ''aapl'' = (True, st')"
    "total_companies (get_stats st') = 1"
    "search (\<lambda>texts. Some [[1, 0]]) no_knn no_index_search st' ''apple news'' 5 (Some ''aapl'') = []"
    by auto
  with c k l show ?thesis by simp
qed

section \<open>The symbol index stays consistent\<close>

lemma positions_from_snoc:
  "positions_from pos k (ms @ [m])
     = positions_from pos k ms @ (if key m = k then [pos + length ms] else [])"
  by (induction ms arbitrary: pos) simp_all

lemma index_consistentI:
  assumes "length (documents st) = length (metadata st)"
    and "distinct (map fst (company_index st))"
    and "list_all (\<lambda>(k, ps). ps \<noteq> []) (company_index st)"
    and "\<And>k. index_get (company_index st) k = positions_from 0 k (metadata st)"
  shows "index_consistent st"
proof -
  have e: "list_all (\<lambda>(k, ps). ps \<noteq> [] \<and> ps = positions_from 0 k (metadata st)) (company_index st)"
    unfolding list_all_iff
  proof (intro ballI, clarify)
    fix k ps assume in_set: "(k, ps) \<in> set (company_index st)"
    with assms(2) have "map_of (company_index st) k = Some ps" by simp
    then have "index_get (company_index st) k = ps" by (simp add: index_get_def)
    with assms(4) [of k] have "ps = positions_from 0 k (metadata st)" by simp
    moreover from assms(3) in_set have "ps \<noteq> []" by (auto simp: list_all_iff)
    ultimately show "ps \<noteq> [] \<and> ps = positions_from 0 k (metadata st)" by simp
  qed
  have k: "list_all (\<lambda>m. key m \<in> set (map fst (company_index st))) (metadata st)"
    unfolding list_all_iff
  proof
    fix m assume "m \<in> set (metadata st)"
    then have "positions_from 0 (key m) (metadata st) \<noteq> []"
      using positions_from_empty [of 0 "key m" "metadata st"] by blast
    with assms(4) [of "key m"] have "index_get (company_index st) (key m) \<noteq> []" by simp
    then have "map_of (company_index st) (key m) \<noteq> None"
      by (cases "map_of (company_index st) (key m)") (simp_all add: index_get_def)
    then show "key m \<in> set (map fst (company_index st))"
      by (simp add: map_of_eq_None_iff)
  qed
  show ?thesis unfolding index_consistent_def using assms(1,2) e k by blast
qed

lemma consistent_nonempty:
  "index_consistent st \<Longrightarrow> list_all (\<lambda>(k, ps). ps \<noteq> []) (company_index st)"
  by (auto simp: index_consistent_def list_all_iff)

lemma store_document_consistent:
  assumes "index_consistent st" "py_upper (doc_symbol doc) = doc_symbol doc"
  shows "index_consistent
           (st\<lparr>documents := documents st @ [doc_text doc],
               metadata := metadata st @ [doc],
               company_index := index_append (doc_symbol doc) (length (documents st))
                                  (company_index st)\<rparr>)"
proof (rule index_consistentI)
  let ?st = "st\<lparr>documents := documents st @ [doc_text doc],
               metadata := metadata st @ [doc],
               company_index := index_append (doc_symbol doc) (length (documents st))
                                  (company_index st)\<rparr>"
  have len: "length (documents st) = length (metadata st)"
    using assms(1) by (simp add: index_consistent_def)
  then show "length (documents ?st) = length (metadata ?st)" by simp
  show "distinct (map fst (company_index ?st))"
    using assms(1) by (simp add: index_consistent_def distinct_index_append)
  show "list_all (\<lambda>(k, ps). ps \<noteq> []) (company_index ?st)"
    using consistent_nonempty [OF assms(1)] by (simp add: nonempty_index_append)
  fix k
  show "index_get (company_index ?st) k = positions_from 0 k (metadata ?st)"
    using consistent_index_get [OF assms(1)] assms(2) len
    by (cases "k = doc_symbol doc")
       (simp_all add: index_get_append_same index_get_append_other positions_from_snoc)
qed

lemma store_documents_consistent:
  "index_consistent st \<Longrightarrow> pos = length (documents st) \<Longrightarrow>
   list_all (\<lambda>doc. py_upper (doc_symbol doc) = doc_symbol doc) docs \<Longrightarrow>
   index_consistent (store_documents pos docs st)"
proof (induction docs arbitrary: pos st)
  case Nil
  then show ?case by simp
next
  case (Cons doc docs)
  let ?st = "st\<lparr>documents := documents st @ [doc_text doc], metadata := metadata st @ [doc],
           company_index := index_append (doc_symbol doc) pos (company_index st)\<rparr>"
  have "index_consistent ?st"
    using store_document_consistent [of st doc] Cons.prems by simp
  moreover have "Suc pos = length (documents ?st)" using Cons.prems(2) by simp
  moreover have "list_all (\<lambda>doc. py_upper (doc_symbol doc) = doc_symbol doc) docs"
    using Cons.prems(3) by simp
  ultimately have "index_consistent (store_documents (Suc pos) docs ?st)" by (rule Cons.IH)
  then show ?case by simp
qed

text \<open>
  Adding keeps the symbol index consistent when the symbols of the batch are in upper case,
  as the data model has them; so every store built from the empty one by additions of such
  batches and by removals meets the condition of the removal theorem.
\<close>

lemma add_documents_consistent:
  assumes "index_consistent st"
    and "list_all (\<lambda>doc. py_upper (doc_symbol doc) = doc_symbol doc) docs"
  shows "index_consistent (fst (snd (add_documents get_embeddings st calls docs)))"
proof -
  from add_documents_unchanged_or_stored [of get_embeddings st calls docs]
  show ?thesis
  proof
    assume "fst (snd (add_documents get_embeddings st calls docs)) = st"
    with assms(1) show ?thesis by simp
  next
    assume "\<exists>es. get_embeddings (map doc_text docs) = Some es \<and> es \<noteq> []
        \<and> fst (snd (add_documents get_embeddings st calls docs))
            = store_documents (length (documents st)) docs
                (st\<lparr>index := index st @ map normalize_L2 es\<rparr>)"
    then obtain es where r: "fst (snd (add_documents get_embeddings st calls docs))
            = store_documents (length (documents st)) docs
                (st\<lparr>index := index st @ map normalize_L2 es\<rparr>)" by blast
    have "index_consistent (st\<lparr>index := index st @ map normalize_L2 es\<rparr>)"
      using assms(1) by (simp add: index_consistent_def)
    then have "index_consistent (store_documents (length (documents st)) docs
                (st\<lparr>index := index st @ map normalize_L2 es\<rparr>))"
      using assms(2) by (intro store_documents_consistent) simp_all
    with r show ?thesis by simp
  qed
qed

lemma empty_db_consistent: "index_consistent (empty_db d)"
  by (simp add: index_consistent_def empty_db_def)

section \<open>The vector index store: where removal fails\<close>

lemma add_lower_case:
  "add_company_data no_format (\<lambda>texts. Some [[1, 0]]) ''2024-01-01'' (empty_db 2) [] ''aapl''
     apple_data
   = (True,
      \<lparr>documents = [''Company: Apple (aapl)''],
       metadata = [mk_doc ''Company: Apple (aapl)'' ''company_overview'' ''aapl'' ''2024-01-01''],
       company_index = [(''aapl'', [0])],
       index = map normalize_L2 [[1, 0]],
       dimension = 2\<rparr>,
      [[''Company: Apple (aapl)'']])"
  by (simp add: add_company_data_def documents_to_add_def apple_data_def add_documents_def
      empty_db_def format_company_overview_def str_part_def num_part_def mk_doc_def Let_def
      index_append_def index_get_def)

lemma lower_case_db_eq:
  "lower_case_db =
      \<lparr>documents = [''Company: Apple (aapl)''],
       metadata = [mk_doc ''Company: Apple (aapl)'' ''company_overview'' ''aapl'' ''2024-01-01''],
       company_index = [(''aapl'', [0])],
       index = map normalize_L2 [[1, 0]],
       dimension = 2\<rparr>"
  unfolding lower_case_db_def add_lower_case by simp

lemma upper_aapl: "py_upper ''aapl'' = ''AAPL''"
  by code_simp

lemma lower_case_unknown: "index_get (company_index lower_case_db) (py_upper ''aapl'') = []"
  unfolding upper_aapl lower_case_db_eq by (simp add: index_get_def)

text \<open>
  C6. The claim reads: \<^verbatim>\<open>remove\<close> returns false and changes nothing when the symbol has no
  known documents, and otherwise removes exactly the documents of the symbol and returns
  true. Two paths of the code do otherwise. \<^verbatim>\<open>_add_documents\<close> files a document under its
  symbol as given, while \<^verbatim>\<open>remove_company_data\<close> looks the symbol up in upper case: after
  \<^verbatim>\<open>add_company_data("aapl", ...)\<close> has succeeded, the store holds one document of symbol
  \<open>aapl\<close> and satisfies the invariant of the store, and \<^verbatim>\<open>remove_company_data("aapl")\<close>
  returns \<open>False\<close> and removes nothing. And outside an event loop, on the store of two
  symbols, \<^verbatim>\<open>asyncio.create_task\<close> raises once the three lists have been replaced: the
  documents of the symbol are gone, the index keeps its two vectors, and the result is
  \<open>False\<close>.
\<close>

theorem remove_company_data_misses_its_documents:
  "fst (add_company_data no_format (\<lambda>texts. Some [[1, 0]]) ''2024-01-01'' (empty_db 2) []
          ''aapl'' apple_data) = True
   \<and> store_invariant lower_case_db
   \<and> map doc_symbol (metadata lower_case_db) = [''aapl'']
   \<and> remove_company_data loop_running lower_case_db ''aapl'' = (False, lower_case_db)
   \<and> total_documents (get_stats lower_case_db) = 1
   \<and> remove_company_data False two_symbol_db ''aapl'' = (False, purged two_symbol_db ''AAPL'')
   \<and> documents (purged two_symbol_db ''AAPL'') = [''Company: Microsoft (MSFT)'']
   \<and> length (index (purged two_symbol_db ''AAPL'')) = 2"
proof (intro conjI)
  show "fst (add_company_data no_format (\<lambda>texts. Some [[1, 0]]) ''2024-01-01'' (empty_db 2) []
          ''aapl'' apple_data) = True"
    unfolding add_lower_case by simp
  show "store_invariant lower_case_db"
    unfolding lower_case_db_eq by (simp add: store_invariant_def)
  show "map doc_symbol (metadata lower_case_db) = [''aapl'']"
    unfolding lower_case_db_eq by (simp add: mk_doc_def)
  show "remove_company_data loop_running lower_case_db ''aapl'' = (False, lower_case_db)"
    using lower_case_unknown by (simp add: remove_company_data_def)
  show "total_documents (get_stats lower_case_db) = 1"
    unfolding lower_case_db_eq by (simp add: get_stats_def)
  show "remove_company_data False two_symbol_db ''aapl'' = (False, purged two_symbol_db ''AAPL'')"
    by code_simp
  show "documents (purged two_symbol_db ''AAPL'') = [''Company: Microsoft (MSFT)'']"
    by code_simp
  show "length (index (purged two_symbol_db ''AAPL'')) = 2"
    by code_simp
qed

end
